theory Spec2Isabelle
  imports Main "HOL-Library.Word" "HOL-Library.AList"
begin

section \<open>Values that cross the boundary of the service\<close>

text \<open>
  A \<open>Buffer\<close> is a sequence of bytes. What a promise rejects with (and what
  \<^verbatim>\<open>catch (error)\<close> binds) is any JavaScript value: an instance of \<open>Error\<close>, with its
  message and its \<open>stack\<close> (typed \<open>string | undefined\<close>), or something else.
\<close>

type_synonym byte = "8 word"
type_synonym Buffer = "byte list"

datatype js_error =
    JsError string "string option"  \<comment> \<open>\<open>error instanceof Error\<close>: message, \<open>error.stack\<close>\<close>
  | JsThrown string                 \<comment> \<open>any rejected value that is not an \<open>Error\<close>\<close>

text \<open>
  The DTO classes are declared outside the files at hand; their fields are the ones the
  service reads (\<open>file.bucket\<close>, \<open>file.key\<close>, \<open>file.content\<close>, \<open>file.contentType\<close>,
  \<open>data.prefix\<close>, \<open>data.expiresIn\<close>), the optional ones as \<open>option\<close>.
\<close>

record BucketDto =
  bucket :: string

record FileDto = BucketDto +
  key :: string

record UploadFileDto = FileDto +
  content :: Buffer
  contentType :: "string option"

type_synonym DownloadFileDto = FileDto
type_synonym DeleteFileDto = FileDto

record ListFilesDto = BucketDto +
  prefix :: "string option"

record GetSignedUrlDto = FileDto +
  expiresIn :: "int option"

section \<open>The remote client\<close>

text \<open>
  The commands the service builds, with the fields it sets:
  \<open>PutObjectCommand {Bucket, Key, Body, ContentType}\<close>, \<open>GetObjectCommand {Bucket, Key}\<close>,
  \<open>ListObjectsV2Command {Bucket, Prefix}\<close>, \<open>DeleteObjectCommand {Bucket, Key}\<close>.
\<close>

datatype S3Command =
    PutObjectCommand string string Buffer string
  | GetObjectCommand string string
  | ListObjectsV2Command string string
  | DeleteObjectCommand string string

text \<open>
  A \<open>Readable\<close> hands out chunks until it ends or fails; \<^verbatim>\<open>for await\<close> over it throws
  the failure. Between two events the stream may have nothing to give for a while
  (\<open>Wait\<close>, one turn). A stream that never ends is outside this model.
\<close>

datatype Readable =
    Chunk Buffer Readable
  | Wait Readable
  | End
  | Destroyed js_error

record S3Object =
  Key :: "string option"

text \<open>The fields of a response that the service reads; both are optional in the SDK.\<close>

record S3Output =
  Body :: "Readable option"
  Contents :: "S3Object list option"

record S3ClientConfig =
  region :: "string option"
  accessKeyId :: "string option"
  secretAccessKey :: "string option"

text \<open>
  The client is an external collaborator: \<open>send\<close> is a parameter, a function of the
  command and of the state \<open>'w\<close> of the world behind the client, which resolves with a
  response or rejects with an error. How long the promise of a call takes to settle is a
  parameter too: \<open>latency\<close>, in turns of the event loop, counted from the moment the
  method issues its calls.
\<close>

record 'w S3Client =
  config :: S3ClientConfig
  send :: "S3Command \<Rightarrow> 'w \<Rightarrow> (js_error + S3Output) \<times> 'w"
  latency :: "S3Command \<Rightarrow> 'w \<Rightarrow> nat"

text \<open>\<open>getSignedUrl\<close> of the request presigner, imported as \<open>generateSignedUrl\<close>.\<close>

type_synonym 'w presigner = "'w S3Client \<Rightarrow> S3Command \<Rightarrow> int \<Rightarrow> 'w \<Rightarrow> (js_error + string) \<times> 'w"

section \<open>The logger\<close>

record Logger =
  logger_context :: string

datatype LogEntry =
    LogMessage string string                  \<comment> \<open>\<open>logger.log(message)\<close>: context, message\<close>
  | ErrorMessage string string "string option"  \<comment> \<open>\<open>logger.error(message, trace)\<close>\<close>

section \<open>The service and the state its methods run in\<close>

record 'w S3StorageService =
  s3 :: "'w S3Client"
  logger :: Logger

text \<open>
  The constructor reads the region and the credentials from the process environment. What
  the network behind the client does (\<open>transport\<close>) and how long it takes (\<open>delay\<close>) are
  given with it.
\<close>

definition new_S3StorageService ::
  "(string \<rightharpoonup> string) \<Rightarrow> (S3Command \<Rightarrow> 'w \<Rightarrow> (js_error + S3Output) \<times> 'w) \<Rightarrow>
   (S3Command \<Rightarrow> 'w \<Rightarrow> nat) \<Rightarrow> 'w S3StorageService" where
  "new_S3StorageService env transport delay =
     \<lparr> s3 = \<lparr> config = \<lparr> region = env ''AWS_REGION'',
                           accessKeyId = env ''AWS_ACCESS_KEY_ID'',
                           secretAccessKey = env ''AWS_SECRET_ACCESS_KEY'' \<rparr>,
              send = transport, latency = delay \<rparr>,
       logger = \<lparr> logger_context = ''S3StorageService'' \<rparr> \<rparr>"

text \<open>
  A method runs in a state made of the service object (\<open>this\<close>), the world behind the
  client and the entries logged so far; it returns how its promise settles (\<open>Inl\<close> the
  rejection) and the state after it.
\<close>

record 'w runtime =
  service :: "'w S3StorageService"
  remote :: 'w
  console :: "LogEntry list"

definition logger_log :: "string \<Rightarrow> 'w runtime \<Rightarrow> 'w runtime" where
  "logger_log msg rt =
     rt\<lparr>console := console rt @ [LogMessage (logger_context (logger (service rt))) msg]\<rparr>"

definition logger_error :: "string \<Rightarrow> string option \<Rightarrow> 'w runtime \<Rightarrow> 'w runtime" where
  "logger_error msg trace rt =
     rt\<lparr>console := console rt @ [ErrorMessage (logger_context (logger (service rt))) msg trace]\<rparr>"

text \<open>\<^verbatim>\<open>error instanceof Error ? error.stack : ""\<close>\<close>

fun stack_or_empty :: "js_error \<Rightarrow> string option" where
  "stack_or_empty (JsError msg st) = st"
| "stack_or_empty (JsThrown v) = Some ''''"

text \<open>\<^verbatim>\<open>x || d\<close> on \<open>string | undefined\<close>: \<open>undefined\<close> and the empty string are falsy.\<close>

definition js_or :: "string option \<Rightarrow> string \<Rightarrow> string" where
  "js_or x d = (case x of None \<Rightarrow> d | Some s \<Rightarrow> if s = '''' then d else s)"

text \<open>\<^verbatim>\<open>x ?? d\<close>: only \<open>undefined\<close> (and \<open>null\<close>) give way to the default.\<close>

definition js_nullish :: "'a option \<Rightarrow> 'a \<Rightarrow> 'a" where
  "js_nullish x d = (case x of None \<Rightarrow> d | Some v \<Rightarrow> v)"

text \<open>\<^verbatim>\<open>`${n}`\<close> for a length: the decimal digits.\<close>

fun show_nat :: "nat \<Rightarrow> string" where
  "show_nat n =
     (if n < 10 then [char_of (48 + n)]
      else show_nat (n div 10) @ [char_of (48 + n mod 10)])"

definition s3_send :: "S3Command \<Rightarrow> 'w runtime \<Rightarrow> (js_error + S3Output) \<times> 'w runtime" where
  "s3_send cmd rt =
     (let (r, w) = send (s3 (service rt)) cmd (remote rt) in (r, rt\<lparr>remote := w\<rparr>))"

text \<open>
  \<^verbatim>\<open>data.map(file => this.s3.send(...))\<close> issues one call per element, all of them,
  whatever the others do. The calls reach the world in the order in which they are
  issued, that of the array; their promises may settle in another order (below).
\<close>

fun send_each :: "S3Command list \<Rightarrow> 'w runtime \<Rightarrow> (js_error + S3Output) list \<times> 'w runtime" where
  "send_each [] rt = ([], rt)"
| "send_each (cmd # cmds) rt =
     (let (r, rt1) = s3_send cmd rt;
          (rs, rt2) = send_each cmds rt1
      in (r # rs, rt2))"

text \<open>
  When the promise of each of these calls settles: the latency of the call, read in the
  state of the world in which the call reaches it.
\<close>

fun latency_each :: "S3Command list \<Rightarrow> 'w runtime \<Rightarrow> nat list" where
  "latency_each [] rt = []"
| "latency_each (cmd # cmds) rt =
     latency (s3 (service rt)) cmd (remote rt) # latency_each cmds (snd (s3_send cmd rt))"

text \<open>The array of promises the calls give: for each, when it settles and how.\<close>

definition sent_promises :: "S3Command list \<Rightarrow> 'w runtime \<Rightarrow> (nat \<times> (js_error + S3Output)) list" where
  "sent_promises cmds rt = zip (latency_each cmds rt) (fst (send_each cmds rt))"

text \<open>
  \<open>Promise.all\<close> on an array of promises, each with the time at which it settles. It
  rejects as soon as one of them rejects, with that rejection: the earliest in time. Of
  two promises that reject in the same turn, the one that comes first in the array has
  its reaction run first. When none rejects, it resolves with the values in the order of
  the array.
\<close>

fun earliest_rejection :: "(nat \<times> (js_error + 'a)) list \<Rightarrow> (nat \<times> js_error) option" where
  "earliest_rejection [] = None"
| "earliest_rejection ((t, Inr v) # ps) = earliest_rejection ps"
| "earliest_rejection ((t, Inl e) # ps) =
     (case earliest_rejection ps of
        None \<Rightarrow> Some (t, e)
      | Some (t', e') \<Rightarrow> if t' < t then Some (t', e') else Some (t, e))"

fun resolved_values :: "(nat \<times> (js_error + 'a)) list \<Rightarrow> 'a list" where
  "resolved_values [] = []"
| "resolved_values ((t, Inr v) # ps) = v # resolved_values ps"
| "resolved_values ((t, Inl e) # ps) = resolved_values ps"

definition Promise_all :: "(nat \<times> (js_error + 'a)) list \<Rightarrow> js_error + 'a list" where
  "Promise_all ps =
     (case earliest_rejection ps of
        Some (t, e) \<Rightarrow> Inl e
      | None \<Rightarrow> Inr (resolved_values ps))"

section \<open>The methods\<close>

definition uploadFiles :: "UploadFileDto list \<Rightarrow> 'w runtime \<Rightarrow> (js_error + unit) \<times> 'w runtime" where
  "uploadFiles data rt0 =
     (let rt1 = logger_log (''Uploading '' @ show_nat (length data) @ '' file(s) to S3...'') rt0;
          cmds = map (\<lambda>file. PutObjectCommand (bucket file) (key file) (content file)
                               (js_or (contentType file) ''application/octet-stream'')) data;
          rt2 = snd (send_each cmds rt1)
      in case Promise_all (sent_promises cmds rt1) of
           Inr _ \<Rightarrow> (Inr (), logger_log ''Upload completed successfully.'' rt2)
         | Inl error \<Rightarrow>
             (Inl error, logger_error ''Failed to upload files to S3'' (stack_or_empty error) rt2))"

text \<open>
  \<^verbatim>\<open>for await (const chunk of stream) chunks.push(chunk)\<close>, then \<open>Buffer.concat(chunks)\<close>.
  A response without a body makes \<^verbatim>\<open>for await\<close> throw a \<open>TypeError\<close>.
\<close>

fun for_await_push :: "Readable \<Rightarrow> Buffer list \<Rightarrow> js_error + Buffer list" where
  "for_await_push (Chunk chunk stream) chunks = for_await_push stream (chunks @ [chunk])"
| "for_await_push (Wait stream) chunks = for_await_push stream chunks"
| "for_await_push End chunks = Inr chunks"
| "for_await_push (Destroyed e) chunks = Inl e"

definition not_async_iterable :: js_error where
  "not_async_iterable =
     JsError ''stream is not async iterable'' (Some ''TypeError: stream is not async iterable'')"

definition read_body :: "js_error + S3Output \<Rightarrow> js_error + Buffer" where
  "read_body sent =
     (case sent of
        Inl e \<Rightarrow> Inl e
      | Inr response \<Rightarrow>
          (case Body response of
             None \<Rightarrow> Inl not_async_iterable
           | Some stream \<Rightarrow>
               (case for_await_push stream [] of
                  Inl e \<Rightarrow> Inl e
                | Inr chunks \<Rightarrow> Inr (concat chunks))))"

text \<open>
  The turns the loop takes to come to the end of the stream or to its failure: one for
  every event of the stream. An element of a download settles that long after its call:
  at once when the call rejects or the response has no body, after the loop otherwise.
\<close>

fun turns :: "Readable \<Rightarrow> nat" where
  "turns (Chunk chunk stream) = Suc (turns stream)"
| "turns (Wait stream) = Suc (turns stream)"
| "turns End = 1"
| "turns (Destroyed e) = 1"

definition read_time :: "js_error + S3Output \<Rightarrow> nat" where
  "read_time sent =
     (case sent of
        Inl e \<Rightarrow> 0
      | Inr response \<Rightarrow> (case Body response of None \<Rightarrow> 0 | Some stream \<Rightarrow> turns stream))"

definition read_promise :: "nat \<times> (js_error + S3Output) \<Rightarrow> nat \<times> (js_error + Buffer)" where
  "read_promise p = (fst p + read_time (snd p), read_body (snd p))"

definition downloadFiles ::
  "DownloadFileDto list \<Rightarrow> 'w runtime \<Rightarrow> (js_error + Buffer list) \<times> 'w runtime" where
  "downloadFiles data rt0 =
     (let rt1 = logger_log (''Downloading '' @ show_nat (length data) @ '' file(s) from S3...'') rt0;
          cmds = map (\<lambda>file. GetObjectCommand (bucket file) (key file)) data;
          rt2 = snd (send_each cmds rt1)
      in case Promise_all (map read_promise (sent_promises cmds rt1)) of
           Inr buffers \<Rightarrow> (Inr buffers, rt2)
         | Inl error \<Rightarrow>
             (Inl error, logger_error ''Failed to download files from S3'' (stack_or_empty error) rt2))"

definition deleteFiles :: "DeleteFileDto list \<Rightarrow> 'w runtime \<Rightarrow> (js_error + unit) \<times> 'w runtime" where
  "deleteFiles data rt0 =
     (let rt1 = logger_log (''Deleting '' @ show_nat (length data) @ '' file(s) from S3...'') rt0;
          cmds = map (\<lambda>file. DeleteObjectCommand (bucket file) (key file)) data;
          rt2 = snd (send_each cmds rt1)
      in case Promise_all (sent_promises cmds rt1) of
           Inr _ \<Rightarrow> (Inr (), logger_log ''Deletion completed successfully.'' rt2)
         | Inl error \<Rightarrow>
             (Inl error, logger_error ''Failed to delete files from S3'' (stack_or_empty error) rt2))"

definition dquote :: string where
  "dquote = [CHR 0x22]"

definition listFiles ::
  "ListFilesDto \<Rightarrow> 'w runtime \<Rightarrow> (js_error + string option list) \<times> 'w runtime" where
  "listFiles data rt0 =
     (let rt1 = logger_log (''Listing files from bucket '' @ dquote @ bucket data @ dquote
                   @ '' with prefix '' @ dquote @ js_or (prefix data) '''' @ dquote @ ''...'') rt0;
          (sent, rt2) = s3_send (ListObjectsV2Command (bucket data) (js_or (prefix data) '''')) rt1
      in case sent of
           Inr response \<Rightarrow>
             (let keys = (case Contents response of None \<Rightarrow> [] | Some objs \<Rightarrow> map Key objs)
              in (Inr keys, logger_log (''Found '' @ show_nat (length keys) @ '' file(s).'') rt2))
         | Inl error \<Rightarrow>
             (Inl error, logger_error ''Failed to list files from S3'' (stack_or_empty error) rt2))"

definition getSignedUrl ::
  "'w presigner \<Rightarrow> GetSignedUrlDto \<Rightarrow> 'w runtime \<Rightarrow> (js_error + string) \<times> 'w runtime" where
  "getSignedUrl generateSignedUrl data rt0 =
     (let rt1 = logger_log (''Generating signed URL for s3://'' @ bucket data @ ''/'' @ key data @ ''...'') rt0;
          command = GetObjectCommand (bucket data) (key data);
          (signed, w) = generateSignedUrl (s3 (service rt1)) command
                           (js_nullish (expiresIn data) 3600) (remote rt1);
          rt2 = rt1\<lparr>remote := w\<rparr>
      in case signed of
           Inr url \<Rightarrow> (Inr url, logger_log ''Signed URL generated successfully.'' rt2)
         | Inl error \<Rightarrow>
             (Inl error, logger_error ''Failed to generate signed URL'' (stack_or_empty error) rt2))"

section \<open>Observing a run\<close>

text \<open>What a stream hands out before it ends, and whether it ends without failing.\<close>

fun chunks_of :: "Readable \<Rightarrow> Buffer list" where
  "chunks_of (Chunk chunk stream) = chunk # chunks_of stream"
| "chunks_of (Wait stream) = chunks_of stream"
| "chunks_of End = []"
| "chunks_of (Destroyed e) = []"

fun ends :: "Readable \<Rightarrow> bool" where
  "ends (Chunk chunk stream) = ends stream"
| "ends (Wait stream) = ends stream"
| "ends End = True"
| "ends (Destroyed e) = False"

text \<open>The entries a method has added to the log.\<close>

definition logged :: "'w runtime \<Rightarrow> 'a \<times> 'w runtime \<Rightarrow> LogEntry list" where
  "logged rt settled = drop (length (console rt)) (console (snd settled))"

text \<open>
  The three kinds of notice. Every message the service logs before it calls the client
  ends in an ellipsis, and no message it logs afterwards does.
\<close>

datatype notice = StartNotice | CompletionNotice | ErrorNotice

fun notice_of :: "LogEntry \<Rightarrow> notice" where
  "notice_of (ErrorMessage ctx msg trace) = ErrorNotice"
| "notice_of (LogMessage ctx msg) =
     (if take 3 (rev msg) = ''...'' then StartNotice else CompletionNotice)"

section \<open>Calls in turn\<close>

text \<open>
  A call to one of the five methods, what a sequence of such calls leaves behind, and the
  container and key pairs a call writes to or deletes.
\<close>

datatype Call =
    CallUpload "UploadFileDto list"
  | CallDownload "DownloadFileDto list"
  | CallDelete "DeleteFileDto list"
  | CallList ListFilesDto
  | CallSignedUrl GetSignedUrlDto

fun after_call :: "'w presigner \<Rightarrow> Call \<Rightarrow> 'w runtime \<Rightarrow> 'w runtime" where
  "after_call generateSignedUrl (CallUpload data) rt = snd (uploadFiles data rt)"
| "after_call generateSignedUrl (CallDownload data) rt = snd (downloadFiles data rt)"
| "after_call generateSignedUrl (CallDelete data) rt = snd (deleteFiles data rt)"
| "after_call generateSignedUrl (CallList data) rt = snd (listFiles data rt)"
| "after_call generateSignedUrl (CallSignedUrl data) rt = snd (getSignedUrl generateSignedUrl data rt)"

fun after_calls :: "'w presigner \<Rightarrow> Call list \<Rightarrow> 'w runtime \<Rightarrow> 'w runtime" where
  "after_calls generateSignedUrl [] rt = rt"
| "after_calls generateSignedUrl (c # cs) rt =
     after_calls generateSignedUrl cs (after_call generateSignedUrl c rt)"

fun written :: "Call \<Rightarrow> (string \<times> string) list" where
  "written (CallUpload data) = map (\<lambda>file. (bucket file, key file)) data"
| "written (CallDelete data) = map (\<lambda>file. (bucket file, key file)) data"
| "written (CallDownload data) = []"
| "written (CallList data) = []"
| "written (CallSignedUrl data) = []"

section \<open>Test doubles\<close>

text \<open>
  The doubles of the test suite: a client that resolves every call with one response, a
  client that rejects every call with one error, and a client that keeps the calls it
  received next to the world of the client it wraps (\<open>mock.calls\<close>).
\<close>

definition mockResolvedValue :: "S3Output \<Rightarrow> S3Command \<Rightarrow> 'w \<Rightarrow> (js_error + S3Output) \<times> 'w" where
  "mockResolvedValue response cmd w = (Inr response, w)"


definition recording ::
  "(S3Command \<Rightarrow> 'w \<Rightarrow> (js_error + S3Output) \<times> 'w) \<Rightarrow>
   S3Command \<Rightarrow> 'w \<times> S3Command list \<Rightarrow> (js_error + S3Output) \<times> 'w \<times> S3Command list" where
  "recording transport cmd wc =
     (let (r, w) = transport cmd (fst wc) in (r, (w, snd wc @ [cmd])))"

definition empty_output :: S3Output where
  "empty_output = \<lparr> Body = None, Contents = None \<rparr>"

section \<open>An object store behind the client\<close>

text \<open>
  Modelled from the spec: the object-storage service itself, which is an external
  collaborator and has no code in the repository. A put writes the content and the
  content type under the container and key, overwriting any object there; a get hands
  the stored content out as a stream, in chunks of at most \<open>n\<close> bytes, and fails on a
  key that holds nothing; a delete removes the object; a list gives the keys of the
  container that start with the prefix, and no \<open>Contents\<close> when there is none. The
  service may also refuse any command: \<open>faults\<close> says which, and with what error.
\<close>

record StoredObject =
  stored_body :: Buffer
  stored_type :: string

type_synonym object_table = "((string \<times> string) \<times> StoredObject) list"

fun stream_of :: "nat \<Rightarrow> Buffer \<Rightarrow> Readable" where
  "stream_of n body =
     (if body = [] then End
      else if n = 0 \<or> length body \<le> n then Chunk body End
      else Chunk (take n body) (stream_of n (drop n body)))"

definition no_such_key :: js_error where
  "no_such_key = JsError ''The specified key does not exist.''
                   (Some ''NoSuchKey: The specified key does not exist.'')"

fun object_store_serve :: "nat \<Rightarrow> S3Command \<Rightarrow> object_table \<Rightarrow> (js_error + S3Output) \<times> object_table" where
  "object_store_serve n (PutObjectCommand b k body ct) table =
     (Inr empty_output, AList.update (b, k) \<lparr> stored_body = body, stored_type = ct \<rparr> table)"
| "object_store_serve n (GetObjectCommand b k) table =
     (case map_of table (b, k) of
        None \<Rightarrow> (Inl no_such_key, table)
      | Some obj \<Rightarrow> (Inr \<lparr> Body = Some (stream_of n (stored_body obj)), Contents = None \<rparr>, table))"
| "object_store_serve n (DeleteObjectCommand b k) table =
     (Inr empty_output, AList.delete (b, k) table)"
| "object_store_serve n (ListObjectsV2Command b p) table =
     (let keys = map (snd \<circ> fst) (filter (\<lambda>((b', k), obj). b' = b \<and> take (length p) k = p) table)
      in (Inr \<lparr> Body = None,
                Contents = (if keys = [] then None else Some (map (\<lambda>k. \<lparr> Key = Some k \<rparr>) keys)) \<rparr>,
          table))"

definition object_store ::
  "nat \<Rightarrow> (S3Command \<Rightarrow> js_error option) \<Rightarrow> S3Command \<Rightarrow> object_table \<Rightarrow>
   (js_error + S3Output) \<times> object_table" where
  "object_store n faults cmd table =
     (case faults cmd of Some e \<Rightarrow> (Inl e, table) | None \<Rightarrow> object_store_serve n cmd table)"

section \<open>Runs to try the methods on\<close>

text \<open>\<open>Buffer.from(text)\<close> for a text of one-byte characters.\<close>

definition Buffer_from :: "string \<Rightarrow> Buffer" where
  "Buffer_from text = map of_char text"

text \<open>
  A service fresh from its constructor, in front of a given world whose calls all settle
  in the turn they are made (as the mocks of the test suite do), with nothing logged.
\<close>

definition instantly :: "S3Command \<Rightarrow> 'w \<Rightarrow> nat" where
  "instantly cmd w = 0"

definition fresh ::
  "(S3Command \<Rightarrow> 'w \<Rightarrow> (js_error + S3Output) \<times> 'w) \<Rightarrow> 'w \<Rightarrow> 'w runtime" where
  "fresh transport w =
     \<lparr> service = new_S3StorageService
                   [''AWS_REGION'' \<mapsto> ''eu-west-1'', ''AWS_ACCESS_KEY_ID'' \<mapsto> ''id'',
                    ''AWS_SECRET_ACCESS_KEY'' \<mapsto> ''secret'']
                   transport instantly,
       remote = w, console = [] \<rparr>"


text \<open>A presigner that answers with a URL made of the container, the key and the expiry.\<close>

definition mock_presigner :: "'w presigner" where
  "mock_presigner client cmd expires w =
     (case cmd of
        GetObjectCommand b k \<Rightarrow>
          (Inr (''https://'' @ b @ ''/'' @ k @ ''?expires='' @ show_nat (nat expires)), w)
      | _ \<Rightarrow> (Inl (JsThrown ''unsupported''), w))"

definition failing_presigner :: "js_error \<Rightarrow> 'w presigner" where
  "failing_presigner e client cmd expires w = (Inl e, w)"

text \<open>An object store that refuses nothing, and one that refuses every put.\<close>

definition no_faults :: "S3Command \<Rightarrow> js_error option" where
  "no_faults cmd = None"




section \<open>How the calls and the log behave\<close>

declare show_nat.simps [simp del]
declare send_each.simps(2) [simp del]
declare latency_each.simps(2) [simp del]

lemma logger_log_fields:
  "service (logger_log msg rt) = service rt"
  "remote (logger_log msg rt) = remote rt"
  "console (logger_log msg rt) = console rt @ [LogMessage (logger_context (logger (service rt))) msg]"
  by (simp_all add: logger_log_def)

lemma logger_error_fields:
  "service (logger_error msg t rt) = service rt"
  "remote (logger_error msg t rt) = remote rt"
  "console (logger_error msg t rt) = console rt @ [ErrorMessage (logger_context (logger (service rt))) msg t]"
  by (simp_all add: logger_error_def)

lemma s3_send_fields:
  "fst (s3_send cmd rt) = fst (send (s3 (service rt)) cmd (remote rt))"
  "service (snd (s3_send cmd rt)) = service rt"
  "remote (snd (s3_send cmd rt)) = snd (send (s3 (service rt)) cmd (remote rt))"
  "console (snd (s3_send cmd rt)) = console rt"
  by (simp_all add: s3_send_def case_prod_beta)

lemma send_each_Cons:
  "send_each (cmd # cmds) rt =
     (fst (s3_send cmd rt) # fst (send_each cmds (snd (s3_send cmd rt))),
      snd (send_each cmds (snd (s3_send cmd rt))))"
  by (simp add: send_each.simps(2) case_prod_beta)

lemma latency_each_Cons:
  "latency_each (cmd # cmds) rt =
     latency (s3 (service rt)) cmd (remote rt) # latency_each cmds (snd (s3_send cmd rt))"
  by (rule latency_each.simps(2))

lemma service_send_each: "service (snd (send_each cmds rt)) = service rt"
  by (induction cmds arbitrary: rt) (simp_all add: send_each_Cons s3_send_fields)

lemma console_send_each: "console (snd (send_each cmds rt)) = console rt"
  by (induction cmds arbitrary: rt) (simp_all add: send_each_Cons s3_send_fields)

lemma length_send_each: "length (fst (send_each cmds rt)) = length cmds"
  by (induction cmds arbitrary: rt) (simp_all add: send_each_Cons)

lemma length_latency_each: "length (latency_each cmds rt) = length cmds"
  by (induction cmds arbitrary: rt) (simp_all add: latency_each_Cons)

lemma sent_promises_Nil: "sent_promises [] rt = []"
  by (simp add: sent_promises_def)

lemma sent_promises_Cons:
  "sent_promises (cmd # cmds) rt =
     (latency (s3 (service rt)) cmd (remote rt), fst (s3_send cmd rt)) #
     sent_promises cmds (snd (s3_send cmd rt))"
  by (simp add: sent_promises_def send_each_Cons latency_each_Cons)

lemma map_snd_sent_promises: "map snd (sent_promises cmds rt) = fst (send_each cmds rt)"
  by (simp add: sent_promises_def length_send_each length_latency_each)

lemma length_sent_promises: "length (sent_promises cmds rt) = length cmds"
  by (simp add: sent_promises_def length_send_each length_latency_each)

text \<open>The calls depend on the service and on the world, not on the log.\<close>

lemma s3_send_console:
  "s3_send cmd (rt\<lparr>console := c\<rparr>) = (fst (s3_send cmd rt), (snd (s3_send cmd rt))\<lparr>console := c\<rparr>)"
  by (simp add: s3_send_def case_prod_beta)

lemma send_each_console:
  "send_each cmds (rt\<lparr>console := c\<rparr>) = (fst (send_each cmds rt), (snd (send_each cmds rt))\<lparr>console := c\<rparr>)"
  by (induction cmds arbitrary: rt) (simp_all add: send_each_Cons s3_send_console)

lemma latency_each_console: "latency_each cmds (rt\<lparr>console := c\<rparr>) = latency_each cmds rt"
  by (induction cmds arbitrary: rt) (simp_all add: latency_each_Cons s3_send_console)

lemma send_each_logger_log:
  "fst (send_each cmds (logger_log msg rt)) = fst (send_each cmds rt)"
  "remote (snd (send_each cmds (logger_log msg rt))) = remote (snd (send_each cmds rt))"
  by (simp_all add: logger_log_def send_each_console)

lemma sent_promises_logger_log: "sent_promises cmds (logger_log msg rt) = sent_promises cmds rt"
  by (simp add: sent_promises_def logger_log_def send_each_console latency_each_console)

section \<open>Promises\<close>

lemma earliest_rejection_None_iff:
  "earliest_rejection ps = None \<longleftrightarrow> map snd ps = map Inr (resolved_values ps)"
  by (induction ps rule: earliest_rejection.induct) (auto split: option.splits)

lemma all_resolved:
  "map snd ps = map Inr vs \<Longrightarrow> earliest_rejection ps = None \<and> resolved_values ps = vs"
proof (induction ps arbitrary: vs rule: earliest_rejection.induct)
  case 1
  then show ?case by simp
next
  case (2 t v ps)
  then obtain ws where "vs = v # ws" "map snd ps = map Inr ws" by (cases vs) auto
  with "2.IH" [of ws] show ?case by simp
next
  case (3 t e ps)
  then show ?case by (cases vs) auto
qed

lemma Promise_all_resolved:
  "map snd ps = map Inr vs \<Longrightarrow> Promise_all ps = Inr vs"
  by (simp add: Promise_all_def all_resolved)

lemma Promise_all_Inr_D: "Promise_all ps = Inr vs \<Longrightarrow> map snd ps = map Inr vs"
  by (auto simp: Promise_all_def earliest_rejection_None_iff split: option.splits)


lemma Promise_all_Inl_D: "Promise_all ps = Inl e \<Longrightarrow> \<exists>t. earliest_rejection ps = Some (t, e)"
  by (auto simp: Promise_all_def split: option.splits)

text \<open>
  The rejection \<open>Promise.all\<close> surfaces is one of the array, no rejection of the array is
  earlier, and among the rejections of its turn it comes first in the array.
\<close>

lemma earliest_rejection_member:
  "earliest_rejection ps = Some (t, e) \<Longrightarrow> (t, Inl e) \<in> set ps"
  by (induction ps arbitrary: t e rule: earliest_rejection.induct)
     (auto split: option.splits if_splits)

lemma earliest_rejection_Some:
  "(t', Inl e') \<in> set ps \<Longrightarrow> \<exists>t e. earliest_rejection ps = Some (t, e)"
  by (induction ps rule: earliest_rejection.induct) (auto split: option.splits)

lemma earliest_rejection_least:
  "earliest_rejection ps = Some (t, e) \<Longrightarrow> (t', Inl e') \<in> set ps \<Longrightarrow> t \<le> t'"
proof (induction ps arbitrary: t e rule: earliest_rejection.induct)
  case 1
  then show ?case by simp
next
  case (2 t0 v ps)
  then show ?case by auto
next
  case (3 t0 e0 ps)
  show ?case
  proof (cases "earliest_rejection ps")
    case None
    with "3.prems"(1) have "t = t0" by simp
    moreover have "(t', Inl e') \<notin> set ps"
      using earliest_rejection_Some [of t' e' ps] None by auto
    ultimately show ?thesis using "3.prems"(2) by simp
  next
    case (Some p)
    obtain t1 e1 where p: "p = (t1, e1)" by (cases p)
    show ?thesis
    proof (cases "(t', Inl e') \<in> set ps")
      case True
      from "3.IH" [of t1 e1] Some p True have "t1 \<le> t'" by simp
      with "3.prems"(1) Some p show ?thesis by (auto split: if_splits)
    next
      case False
      with "3.prems"(2) have "t' = t0" by simp
      with "3.prems"(1) Some p show ?thesis by (auto split: if_splits)
    qed
  qed
qed

lemma earliest_rejection_first_of_turn:
  "earliest_rejection ps = Some (t, e) \<Longrightarrow>
   \<exists>i<length ps. ps ! i = (t, Inl e) \<and> (\<forall>j<i. \<forall>e'. ps ! j \<noteq> (t, Inl e'))"
proof (induction ps arbitrary: t e rule: earliest_rejection.induct)
  case 1
  then show ?case by simp
next
  case (2 t0 v ps)
  then obtain i where i: "i < length ps" "ps ! i = (t, Inl e)" "\<forall>j<i. \<forall>e'. ps ! j \<noteq> (t, Inl e')"
    by auto
  have "\<forall>j<Suc i. \<forall>e'. ((t0, Inr v) # ps) ! j \<noteq> (t, Inl e')"
  proof (intro allI impI)
    fix j e' assume "j < Suc i"
    then show "((t0, Inr v) # ps) ! j \<noteq> (t, Inl e')" using i(3) by (cases j) auto
  qed
  with i show ?case by (intro exI [of _ "Suc i"]) simp
next
  case (3 t0 e0 ps)
  show ?case
  proof (cases "(t, e) = (t0, e0)")
    case True
    then show ?thesis by (intro exI [of _ 0]) simp
  next
    case False
    with "3.prems" obtain t' e' where
      later: "earliest_rejection ps = Some (t', e')" and "t' < t0" and "(t, e) = (t', e')"
      by (auto split: option.splits if_splits)
    then have rest: "earliest_rejection ps = Some (t, e)" and lt: "t < t0" by simp_all
    from "3.IH" [OF rest] obtain i where
      i: "i < length ps" "ps ! i = (t, Inl e)" "\<forall>j<i. \<forall>e'. ps ! j \<noteq> (t, Inl e')"
      by auto
    have "\<forall>j<Suc i. \<forall>e'. ((t0, Inl e0) # ps) ! j \<noteq> (t, Inl e')"
    proof (intro allI impI)
      fix j e' assume "j < Suc i"
      then show "((t0, Inl e0) # ps) ! j \<noteq> (t, Inl e')" using i(3) lt by (cases j) auto
    qed
    with i show ?thesis by (intro exI [of _ "Suc i"]) simp
  qed
qed

section \<open>What a method returns, leaves behind and logs\<close>

lemma fst_uploadFiles:
  "fst (uploadFiles data rt) =
     (case Promise_all (sent_promises
             (map (\<lambda>file. PutObjectCommand (bucket file) (key file) (content file)
                            (js_or (contentType file) ''application/octet-stream'')) data) rt) of
        Inr vs \<Rightarrow> Inr () | Inl e \<Rightarrow> Inl e)"
  by (simp add: uploadFiles_def Let_def sent_promises_logger_log split: sum.split)

lemma remote_uploadFiles:
  "remote (snd (uploadFiles data rt)) =
     remote (snd (send_each
             (map (\<lambda>file. PutObjectCommand (bucket file) (key file) (content file)
                            (js_or (contentType file) ''application/octet-stream'')) data) rt))"
  by (simp add: uploadFiles_def Let_def send_each_logger_log logger_log_fields
      logger_error_fields split: sum.split)

lemma console_uploadFiles:
  "console (snd (uploadFiles data rt)) =
     console rt @
     [LogMessage (logger_context (logger (service rt)))
        (''Uploading '' @ show_nat (length data) @ '' file(s) to S3...''),
      case fst (uploadFiles data rt) of
        Inr u \<Rightarrow> LogMessage (logger_context (logger (service rt))) ''Upload completed successfully.''
      | Inl e \<Rightarrow> ErrorMessage (logger_context (logger (service rt))) ''Failed to upload files to S3''
                  (stack_or_empty e)]"
  by (simp add: uploadFiles_def Let_def sent_promises_logger_log logger_log_fields
      logger_error_fields console_send_each service_send_each split: sum.split)


lemma remote_deleteFiles:
  "remote (snd (deleteFiles data rt)) =
     remote (snd (send_each (map (\<lambda>file. DeleteObjectCommand (bucket file) (key file)) data) rt))"
  by (simp add: deleteFiles_def Let_def send_each_logger_log logger_log_fields
      logger_error_fields split: sum.split)

lemma console_deleteFiles:
  "console (snd (deleteFiles data rt)) =
     console rt @
     [LogMessage (logger_context (logger (service rt)))
        (''Deleting '' @ show_nat (length data) @ '' file(s) from S3...''),
      case fst (deleteFiles data rt) of
        Inr u \<Rightarrow> LogMessage (logger_context (logger (service rt))) ''Deletion completed successfully.''
      | Inl e \<Rightarrow> ErrorMessage (logger_context (logger (service rt))) ''Failed to delete files from S3''
                  (stack_or_empty e)]"
  by (simp add: deleteFiles_def Let_def sent_promises_logger_log logger_log_fields
      logger_error_fields console_send_each service_send_each split: sum.split)

lemma fst_downloadFiles:
  "fst (downloadFiles data rt) =
     Promise_all (map read_promise (sent_promises
        (map (\<lambda>file. GetObjectCommand (bucket file) (key file)) data) rt))"
  by (simp add: downloadFiles_def Let_def sent_promises_logger_log split: sum.split)

lemma remote_downloadFiles:
  "remote (snd (downloadFiles data rt)) =
     remote (snd (send_each (map (\<lambda>file. GetObjectCommand (bucket file) (key file)) data) rt))"
  by (simp add: downloadFiles_def Let_def send_each_logger_log logger_log_fields
      logger_error_fields split: sum.split)

lemma console_downloadFiles:
  "console (snd (downloadFiles data rt)) =
     console rt @
     LogMessage (logger_context (logger (service rt)))
        (''Downloading '' @ show_nat (length data) @ '' file(s) from S3...'') #
     (case fst (downloadFiles data rt) of
        Inr buffers \<Rightarrow> []
      | Inl e \<Rightarrow> [ErrorMessage (logger_context (logger (service rt))) ''Failed to download files from S3''
                  (stack_or_empty e)])"
  by (simp add: downloadFiles_def Let_def sent_promises_logger_log logger_log_fields
      logger_error_fields console_send_each service_send_each split: sum.split)

lemma fst_listFiles:
  "fst (listFiles data rt) =
     (case fst (send (s3 (service rt)) (ListObjectsV2Command (bucket data) (js_or (prefix data) ''''))
                  (remote rt)) of
        Inr response \<Rightarrow> Inr (case Contents response of None \<Rightarrow> [] | Some objs \<Rightarrow> map Key objs)
      | Inl e \<Rightarrow> Inl e)"
  by (simp add: listFiles_def Let_def case_prod_beta logger_log_fields s3_send_fields split: sum.split)

lemma remote_listFiles:
  "remote (snd (listFiles data rt)) =
     snd (send (s3 (service rt)) (ListObjectsV2Command (bucket data) (js_or (prefix data) ''''))
            (remote rt))"
  by (simp add: listFiles_def Let_def case_prod_beta logger_log_fields logger_error_fields
      s3_send_fields split: sum.split)

lemma console_listFiles:
  "console (snd (listFiles data rt)) =
     console rt @
     [LogMessage (logger_context (logger (service rt)))
        (''Listing files from bucket '' @ dquote @ bucket data @ dquote
           @ '' with prefix '' @ dquote @ js_or (prefix data) '''' @ dquote @ ''...''),
      case fst (listFiles data rt) of
        Inr keys \<Rightarrow> LogMessage (logger_context (logger (service rt)))
                     (''Found '' @ show_nat (length keys) @ '' file(s).'')
      | Inl e \<Rightarrow> ErrorMessage (logger_context (logger (service rt))) ''Failed to list files from S3''
                  (stack_or_empty e)]"
  by (simp add: listFiles_def Let_def case_prod_beta logger_log_fields
      logger_error_fields s3_send_fields split: sum.split)

lemma fst_getSignedUrl:
  "fst (getSignedUrl generateSignedUrl data rt) =
     fst (generateSignedUrl (s3 (service rt)) (GetObjectCommand (bucket data) (key data))
            (js_nullish (expiresIn data) 3600) (remote rt))"
  by (simp add: getSignedUrl_def Let_def case_prod_beta logger_log_fields split: sum.split)

lemma remote_getSignedUrl:
  "remote (snd (getSignedUrl generateSignedUrl data rt)) =
     snd (generateSignedUrl (s3 (service rt)) (GetObjectCommand (bucket data) (key data))
            (js_nullish (expiresIn data) 3600) (remote rt))"
  by (simp add: getSignedUrl_def Let_def case_prod_beta logger_log_fields logger_error_fields
      split: sum.split)

lemma console_getSignedUrl:
  "console (snd (getSignedUrl generateSignedUrl data rt)) =
     console rt @
     [LogMessage (logger_context (logger (service rt)))
        (''Generating signed URL for s3://'' @ bucket data @ ''/'' @ key data @ ''...''),
      case fst (getSignedUrl generateSignedUrl data rt) of
        Inr url \<Rightarrow> LogMessage (logger_context (logger (service rt))) ''Signed URL generated successfully.''
      | Inl e \<Rightarrow> ErrorMessage (logger_context (logger (service rt))) ''Failed to generate signed URL''
                  (stack_or_empty e)]"
  by (simp add: getSignedUrl_def Let_def case_prod_beta logger_log_fields
      logger_error_fields split: sum.split)

lemma service_uploadFiles: "service (snd (uploadFiles data rt)) = service rt"
  by (simp add: uploadFiles_def Let_def service_send_each logger_log_fields
      logger_error_fields split: sum.split)

lemma service_downloadFiles: "service (snd (downloadFiles data rt)) = service rt"
  by (simp add: downloadFiles_def Let_def service_send_each logger_log_fields
      logger_error_fields split: sum.split)

lemma service_deleteFiles: "service (snd (deleteFiles data rt)) = service rt"
  by (simp add: deleteFiles_def Let_def service_send_each logger_log_fields
      logger_error_fields split: sum.split)

lemma service_listFiles: "service (snd (listFiles data rt)) = service rt"
  by (simp add: listFiles_def Let_def case_prod_beta s3_send_fields logger_log_fields
      logger_error_fields split: sum.split)

lemma service_getSignedUrl: "service (snd (getSignedUrl generateSignedUrl data rt)) = service rt"
  by (simp add: getSignedUrl_def Let_def case_prod_beta logger_log_fields
      logger_error_fields split: sum.split)

section \<open>The streams\<close>

lemma for_await_push_ends:
  "ends stream \<Longrightarrow> for_await_push stream chunks = Inr (chunks @ chunks_of stream)"
  by (induction stream arbitrary: chunks) simp_all

lemma for_await_push_fails:
  "\<not> ends stream \<Longrightarrow> \<exists>e. for_await_push stream chunks = Inl e"
  by (induction stream arbitrary: chunks) simp_all

lemma read_body_ends:
  "Body response = Some stream \<Longrightarrow> ends stream \<Longrightarrow>
   read_body (Inr response) = Inr (concat (chunks_of stream))"
  by (simp add: read_body_def for_await_push_ends)

lemma turns_positive: "0 < turns stream"
  by (cases stream) simp_all

section \<open>The service keeps its own fields\<close>

text \<open>
  C9: no method changes the service object. The fields of the service are the client
  \<open>s3\<close> and the \<open>logger\<close>; after a call to \<open>uploadFiles\<close>, \<open>downloadFiles\<close>,
  \<open>deleteFiles\<close>, \<open>listFiles\<close> or \<open>getSignedUrl\<close>, whatever the client and the
  presigner answer, the service object is the one the call started with. What changes
  is the world behind the client and the log.
\<close>

theorem methods_leave_service_unchanged:
  "service (snd (uploadFiles uploads rt)) = service rt \<and>
   service (snd (downloadFiles downloads rt)) = service rt \<and>
   service (snd (deleteFiles deletes rt)) = service rt \<and>
   service (snd (listFiles listing rt)) = service rt \<and>
   service (snd (getSignedUrl generateSignedUrl signing rt)) = service rt"
  by (simp add: service_uploadFiles service_downloadFiles service_deleteFiles service_listFiles
      service_getSignedUrl)

theorem methods_leave_service_unchanged_witness:
  "s3 (service (snd (uploadFiles
      [\<lparr>bucket = ''b'', key = ''f.txt'', content = Buffer_from ''Hello'', contentType = Some ''text/plain''\<rparr>]
      (fresh (object_store 2 no_faults) [])))) = s3 (service (fresh (object_store 2 no_faults) [])) \<and>
   logger (service (snd (downloadFiles [\<lparr>bucket = ''b'', key = ''f.txt''\<rparr>]
      (fresh (object_store 2 no_faults) [])))) = \<lparr>logger_context = ''S3StorageService''\<rparr>"
proof -
  have "logger (service (fresh (object_store 2 no_faults) [])) = \<lparr>logger_context = ''S3StorageService''\<rparr>"
    by (simp add: fresh_def new_S3StorageService_def)
  with methods_leave_service_unchanged
         [of "[\<lparr>bucket = ''b'', key = ''f.txt'', content = Buffer_from ''Hello'', contentType = Some ''text/plain''\<rparr>]"
             "fresh (object_store 2 no_faults) []" "[\<lparr>bucket = ''b'', key = ''f.txt''\<rparr>]"]
  show ?thesis by simp
qed

section \<open>Signed URLs\<close>

text \<open>
  C7: for every request, \<open>getSignedUrl\<close> settles as the presigner does when it is asked,
  with the client of the service, for a get of the object of the request: the URL the
  presigner gives is returned as it is (and its rejection is the rejection of the
  method), and the world is left as the presigner leaves it. The validity it asks for is
  the expiry of the request; when the request carries no expiry, it is 3600 seconds.
\<close>

theorem getSignedUrl_default_expiry:
  "fst (getSignedUrl generateSignedUrl data rt) =
     fst (generateSignedUrl (s3 (service rt)) (GetObjectCommand (bucket data) (key data))
            (case expiresIn data of None \<Rightarrow> 3600 | Some seconds \<Rightarrow> seconds) (remote rt)) \<and>
   remote (snd (getSignedUrl generateSignedUrl data rt)) =
     snd (generateSignedUrl (s3 (service rt)) (GetObjectCommand (bucket data) (key data))
            (case expiresIn data of None \<Rightarrow> 3600 | Some seconds \<Rightarrow> seconds) (remote rt)) \<and>
   (expiresIn data = None \<longrightarrow>
      fst (getSignedUrl generateSignedUrl data rt) =
        fst (generateSignedUrl (s3 (service rt)) (GetObjectCommand (bucket data) (key data))
               3600 (remote rt)))"
  by (simp add: fst_getSignedUrl remote_getSignedUrl js_nullish_def split: option.split)

theorem getSignedUrl_default_expiry_witness:
  "fst (getSignedUrl mock_presigner \<lparr>bucket = ''b'', key = ''f.txt'', expiresIn = None\<rparr>
          (fresh (mockResolvedValue empty_output) ())) =
     Inr ''https://b/f.txt?expires=3600'' \<and>
   fst (getSignedUrl mock_presigner \<lparr>bucket = ''b'', key = ''f.txt'', expiresIn = Some 1800\<rparr>
          (fresh (mockResolvedValue empty_output) ())) =
     Inr ''https://b/f.txt?expires=1800'' \<and>
   fst (getSignedUrl (failing_presigner (JsThrown ''no credentials''))
          \<lparr>bucket = ''b'', key = ''f.txt'', expiresIn = Some 1800\<rparr>
          (fresh (mockResolvedValue empty_output) ())) =
     Inl (JsThrown ''no credentials'')"
proof -
  let ?rt = "fresh (mockResolvedValue empty_output) ()"
  have none: "expiresIn \<lparr>bucket = ''b'', key = ''f.txt'', expiresIn = None\<rparr> = None" by simp
  have a: "fst (mock_presigner (s3 (service ?rt)) (GetObjectCommand ''b'' ''f.txt'') 3600 ()) =
             Inr ''https://b/f.txt?expires=3600''"
    by code_simp
  have b: "fst (mock_presigner (s3 (service ?rt)) (GetObjectCommand ''b'' ''f.txt'') 1800 ()) =
             Inr ''https://b/f.txt?expires=1800''"
    by code_simp
  have c: "fst (failing_presigner (JsThrown ''no credentials'') (s3 (service ?rt))
                  (GetObjectCommand ''b'' ''f.txt'') 1800 (remote ?rt)) =
             Inl (JsThrown ''no credentials'')"
    by (simp add: failing_presigner_def)
  have w: "remote ?rt = ()" by simp
  from getSignedUrl_default_expiry
         [of mock_presigner "\<lparr>bucket = ''b'', key = ''f.txt'', expiresIn = None\<rparr>" ?rt]
       getSignedUrl_default_expiry
         [of mock_presigner "\<lparr>bucket = ''b'', key = ''f.txt'', expiresIn = Some 1800\<rparr>" ?rt]
       getSignedUrl_default_expiry
         [of "failing_presigner (JsThrown ''no credentials'')"
             "\<lparr>bucket = ''b'', key = ''f.txt'', expiresIn = Some 1800\<rparr>" ?rt]
       none a b c
  show ?thesis by simp
qed

section \<open>Listing\<close>

text \<open>
  C6: when the list call resolves and the response reports no contents (the field
  \<open>Contents\<close> is missing, or it is the empty array), \<open>listFiles\<close> resolves with the
  empty sequence of keys; it does not reject. A prefix that matches no key is one such
  case.
\<close>

theorem listFiles_no_contents:
  assumes "fst (send (s3 (service rt))
                  (ListObjectsV2Command (bucket data) (case prefix data of None \<Rightarrow> '''' | Some p \<Rightarrow> p))
                  (remote rt)) = Inr response"
      and "Contents response = None \<or> Contents response = Some []"
  shows "fst (listFiles data rt) = Inr []"
proof -
  have "js_or (prefix data) '''' = (case prefix data of None \<Rightarrow> '''' | Some p \<Rightarrow> p)"
    by (simp add: js_or_def split: option.split)
  with assms show ?thesis by (auto simp: fst_listFiles)
qed

theorem listFiles_no_contents_witness:
  "fst (listFiles \<lparr>bucket = ''b'', prefix = Some ''zzz''\<rparr>
          (fresh (object_store 2 no_faults)
             [((''b'', ''f.txt''), \<lparr>stored_body = Buffer_from ''Hello'', stored_type = ''text/plain''\<rparr>)])) = Inr []"
proof -
  let ?rt = "fresh (object_store 2 no_faults)
               [((''b'', ''f.txt''), \<lparr>stored_body = Buffer_from ''Hello'', stored_type = ''text/plain''\<rparr>)]"
  let ?data = "\<lparr>bucket = ''b'', prefix = Some ''zzz''\<rparr>"
  have sent: "fst (send (s3 (service ?rt))
                (ListObjectsV2Command (bucket ?data) (case prefix ?data of None \<Rightarrow> '''' | Some p \<Rightarrow> p))
                (remote ?rt)) = Inr \<lparr>Body = None, Contents = None\<rparr>"
    by (simp add: fresh_def new_S3StorageService_def object_store_def no_faults_def)
  have none: "Contents \<lparr>Body = None, Contents = None\<rparr> = None \<or>
              Contents \<lparr>Body = None, Contents = None\<rparr> = Some []"
    by simp
  from listFiles_no_contents [OF sent none] show ?thesis .
qed

section \<open>A client that keeps its calls\<close>

lemma recording_send_each:
  assumes "send (s3 (service rt)) = recording transport"
  shows "snd (remote (snd (send_each cmds rt))) = snd (remote rt) @ cmds"
  using assms
proof (induction cmds arbitrary: rt)
  case Nil
  show ?case by simp
next
  case (Cons cmd cmds)
  have "snd (remote (snd (s3_send cmd rt))) = snd (remote rt) @ [cmd]"
    using Cons.prems by (simp add: s3_send_fields recording_def case_prod_beta)
  moreover have "send (s3 (service (snd (s3_send cmd rt)))) = recording transport"
    using Cons.prems by (simp add: s3_send_fields)
  ultimately show ?case
    using Cons.IH [of "snd (s3_send cmd rt)"] by (simp add: send_each_Cons)
qed

lemma recording_uploadFiles:
  assumes "send (s3 (service rt)) = recording transport"
  shows "snd (remote (snd (uploadFiles data rt))) =
           snd (remote rt) @
           map (\<lambda>file. PutObjectCommand (bucket file) (key file) (content file)
                         (js_or (contentType file) ''application/octet-stream'')) data"
  using recording_send_each [OF assms] by (simp add: remote_uploadFiles)

section \<open>The content type of an upload\<close>

text \<open>
  C4, as amended: \<open>uploadFiles\<close> sends one put per request, in the order of the batch,
  with the container, key and content of the request. The content type of the put is
  \<open>application/octet-stream\<close> when the request has no content type, and also when the
  content type it supplies is the empty string; a content type that is supplied and is
  not empty is sent as it is. The puts are read off a client that keeps its calls.
\<close>

theorem uploadFiles_content_type:
  assumes "send (s3 (service rt)) = recording transport"
  shows "snd (remote (snd (uploadFiles data rt))) =
           snd (remote rt) @
           map (\<lambda>file. PutObjectCommand (bucket file) (key file) (content file)
                  (case contentType file of
                     None \<Rightarrow> ''application/octet-stream''
                   | Some ct \<Rightarrow> if ct = '''' then ''application/octet-stream'' else ct)) data"
  using recording_uploadFiles [OF assms, of data] by (simp add: js_or_def)

theorem uploadFiles_content_type_witness:
  "snd (remote (snd (uploadFiles
     [\<lparr>bucket = ''test-bucket'', key = ''file.txt'', content = Buffer_from ''Hello'',
        contentType = Some ''text/plain''\<rparr>,
      \<lparr>bucket = ''test-bucket'', key = ''file.bin'', content = Buffer_from ''data'',
        contentType = None\<rparr>]
     (fresh (recording (mockResolvedValue empty_output)) ((), []))))) =
   [PutObjectCommand ''test-bucket'' ''file.txt'' (Buffer_from ''Hello'') ''text/plain'',
    PutObjectCommand ''test-bucket'' ''file.bin'' (Buffer_from ''data'') ''application/octet-stream'']"
proof -
  have h: "send (s3 (service (fresh (recording (mockResolvedValue empty_output)) ((), [])))) =
             recording (mockResolvedValue empty_output)"
    by (simp add: fresh_def new_S3StorageService_def)
  have w: "snd (remote (fresh (recording (mockResolvedValue empty_output)) ((), []))) = []"
    by (simp add: fresh_def)
  from uploadFiles_content_type [OF h,
      of "[\<lparr>bucket = ''test-bucket'', key = ''file.txt'', content = Buffer_from ''Hello'',
              contentType = Some ''text/plain''\<rparr>,
           \<lparr>bucket = ''test-bucket'', key = ''file.bin'', content = Buffer_from ''data'',
              contentType = None\<rparr>]"] w
  show ?thesis by simp
qed

text \<open>
  The claim as it stands fails on a request that supplies the empty string: the put
  carries \<open>application/octet-stream\<close>, not the value supplied.
\<close>

theorem uploadFiles_content_type_counterexample:
  "contentType \<lparr>bucket = ''test-bucket'', key = ''file.txt'', content = Buffer_from ''data'',
                 contentType = Some ''''\<rparr> = Some '''' \<and>
   snd (remote (snd (uploadFiles
     [\<lparr>bucket = ''test-bucket'', key = ''file.txt'', content = Buffer_from ''data'',
        contentType = Some ''''\<rparr>]
     (fresh (recording (mockResolvedValue empty_output)) ((), []))))) =
   [PutObjectCommand ''test-bucket'' ''file.txt'' (Buffer_from ''data'') ''application/octet-stream''] \<and>
   PutObjectCommand ''test-bucket'' ''file.txt'' (Buffer_from ''data'') ''application/octet-stream'' \<noteq>
   PutObjectCommand ''test-bucket'' ''file.txt'' (Buffer_from ''data'') ''''"
proof -
  have h: "send (s3 (service (fresh (recording (mockResolvedValue empty_output)) ((), [])))) =
             recording (mockResolvedValue empty_output)"
    by (simp add: fresh_def new_S3StorageService_def)
  have w: "snd (remote (fresh (recording (mockResolvedValue empty_output)) ((), []))) = []"
    by (simp add: fresh_def)
  from recording_uploadFiles [OF h,
      of "[\<lparr>bucket = ''test-bucket'', key = ''file.txt'', content = Buffer_from ''data'',
              contentType = Some ''''\<rparr>]"] w
  show ?thesis by (simp add: js_or_def)
qed

text \<open>
  C10: a request whose content type is present and is the empty string is sent with the
  content type \<open>application/octet-stream\<close>, as a request without a content type is: the
  put for the \<open>i\<close>-th request of the batch, which is the \<open>i\<close>-th call the client receives
  from \<open>uploadFiles\<close>, carries the default.
\<close>

theorem uploadFiles_empty_content_type:
  assumes "send (s3 (service rt)) = recording transport"
      and "i < length data"
      and "contentType (data ! i) = Some ''''"
  shows "snd (remote (snd (uploadFiles data rt))) ! (length (snd (remote rt)) + i) =
           PutObjectCommand (bucket (data ! i)) (key (data ! i)) (content (data ! i))
             ''application/octet-stream''"
  using recording_uploadFiles [OF assms(1), of data] assms(2,3)
  by (simp add: js_or_def nth_append)

theorem uploadFiles_empty_content_type_witness:
  "snd (remote (snd (uploadFiles
     [\<lparr>bucket = ''test-bucket'', key = ''file.txt'', content = Buffer_from ''Hello'',
        contentType = Some ''text/plain''\<rparr>,
      \<lparr>bucket = ''test-bucket'', key = ''file.bin'', content = Buffer_from ''data'',
        contentType = Some ''''\<rparr>]
     (fresh (recording (mockResolvedValue empty_output)) ((), []))))) ! 1 =
   PutObjectCommand ''test-bucket'' ''file.bin'' (Buffer_from ''data'') ''application/octet-stream''"
proof -
  let ?data = "[\<lparr>bucket = ''test-bucket'', key = ''file.txt'', content = Buffer_from ''Hello'',
                  contentType = Some ''text/plain''\<rparr>,
                \<lparr>bucket = ''test-bucket'', key = ''file.bin'', content = Buffer_from ''data'',
                  contentType = Some ''''\<rparr>]"
  have h: "send (s3 (service (fresh (recording (mockResolvedValue empty_output)) ((), [])))) =
             recording (mockResolvedValue empty_output)"
    by (simp add: fresh_def new_S3StorageService_def)
  have i: "1 < length ?data" by simp
  have c: "contentType (?data ! 1) = Some ''''" by simp
  have w: "snd (remote (fresh (recording (mockResolvedValue empty_output)) ((), []))) = []"
    by (simp add: fresh_def)
  from uploadFiles_empty_content_type [OF h i c] w show ?thesis by simp
qed

section \<open>Downloads\<close>

lemma map_snd_read_promise: "map snd (map read_promise ps) = map read_body (map snd ps)"
  by (simp add: read_promise_def)

lemma read_body_all_ends:
  assumes "map Body responses = map Some streams"
      and "list_all ends streams"
  shows "map read_body (map Inr responses) = map Inr (map (\<lambda>stream. concat (chunks_of stream)) streams)"
  using assms
proof (induction responses arbitrary: streams)
  case Nil
  then show ?case by simp
next
  case (Cons response responses)
  then obtain stream rest where s: "streams = stream # rest" by (cases streams) auto
  with Cons.prems have "Body response = Some stream" "ends stream"
    "map Body responses = map Some rest" "list_all ends rest" by simp_all
  with Cons.IH [of rest] s show ?case by (simp add: read_body_ends)
qed

text \<open>
  C2: when every get resolves with a response whose body is a stream that ends without
  failing, \<open>downloadFiles\<close> resolves with one buffer per request, in the order of the
  requests (the \<open>i\<close>-th response answers the \<open>i\<close>-th request); the \<open>i\<close>-th buffer is the
  concatenation of all the chunks the \<open>i\<close>-th stream hands out before it ends.
\<close>

theorem downloadFiles_concatenates_chunks:
  assumes "fst (send_each (map (\<lambda>file. GetObjectCommand (bucket file) (key file)) data) rt) =
             map Inr responses"
      and "map Body responses = map Some streams"
      and "list_all ends streams"
  shows "fst (downloadFiles data rt) = Inr (map (\<lambda>stream. concat (chunks_of stream)) streams) \<and>
         length streams = length data"
proof -
  have "length (map Inr responses :: (js_error + S3Output) list) = length data"
    using length_send_each [of "map (\<lambda>file. GetObjectCommand (bucket file) (key file)) data" rt]
    by (simp add: assms(1))
  moreover have "length (map Body responses) = length (map Some streams)"
    by (simp only: assms(2))
  ultimately have "length streams = length data" by simp
  moreover have "fst (downloadFiles data rt) = Inr (map (\<lambda>stream. concat (chunks_of stream)) streams)"
    unfolding fst_downloadFiles
  proof (rule Promise_all_resolved)
    show "map snd (map read_promise (sent_promises
             (map (\<lambda>file. GetObjectCommand (bucket file) (key file)) data) rt)) =
          map Inr (map (\<lambda>stream. concat (chunks_of stream)) streams)"
      by (simp only: map_snd_read_promise map_snd_sent_promises assms(1)
          read_body_all_ends [OF assms(2,3)])
  qed
  ultimately show ?thesis by simp
qed

theorem downloadFiles_concatenates_chunks_witness:
  "fst (downloadFiles [\<lparr>bucket = ''b'', key = ''f.txt''\<rparr>, \<lparr>bucket = ''b'', key = ''g.txt''\<rparr>]
          (fresh (object_store 2 no_faults)
             [((''b'', ''f.txt''), \<lparr>stored_body = Buffer_from ''Hello'', stored_type = ''text/plain''\<rparr>),
              ((''b'', ''g.txt''), \<lparr>stored_body = Buffer_from ''abcd'', stored_type = ''text/plain''\<rparr>)])) =
     Inr [[72, 101, 108, 108, 111], [97, 98, 99, 100]]"
proof -
  let ?rt = "fresh (object_store 2 no_faults)
             [((''b'', ''f.txt''), \<lparr>stored_body = Buffer_from ''Hello'', stored_type = ''text/plain''\<rparr>),
              ((''b'', ''g.txt''), \<lparr>stored_body = Buffer_from ''abcd'', stored_type = ''text/plain''\<rparr>)]"
  let ?data = "[\<lparr>bucket = ''b'', key = ''f.txt''\<rparr>, \<lparr>bucket = ''b'', key = ''g.txt''\<rparr>]"
  let ?streams = "[Chunk [72, 101] (Chunk [108, 108] (Chunk [111] End)), Chunk [97, 98] (Chunk [99, 100] End)]"
  let ?responses = "[\<lparr>Body = Some (Chunk [72, 101] (Chunk [108, 108] (Chunk [111] End))), Contents = None\<rparr>,
                     \<lparr>Body = Some (Chunk [97, 98] (Chunk [99, 100] End)), Contents = None\<rparr>]"
  have sent: "fst (send_each (map (\<lambda>file. GetObjectCommand (bucket file) (key file)) ?data) ?rt) =
                map Inr ?responses"
    by code_simp
  have bodies: "map Body ?responses = map Some ?streams" by simp
  have ended: "list_all ends ?streams" by simp
  from downloadFiles_concatenates_chunks [OF sent bodies ended] show ?thesis by simp
qed

section \<open>Rejections\<close>

lemma logged_two:
  "console (snd settled) = console rt @ entries \<Longrightarrow> logged rt settled = entries"
  by (simp add: logged_def)









lemma stack_or_empty_cases:
  "stack_or_empty e = (case e of JsError msg st \<Rightarrow> st | JsThrown v \<Rightarrow> Some '''')"
  by (cases e) simp_all





section \<open>The notices of a call\<close>

lemma notice_of_start: "notice_of (LogMessage ctx (msg @ ''...'')) = StartNotice"
  by simp

lemma notice_of_starts:
  "notice_of (LogMessage ctx (''Uploading '' @ show_nat n @ '' file(s) to S3...'')) = StartNotice"
  "notice_of (LogMessage ctx (''Downloading '' @ show_nat n @ '' file(s) from S3...'')) = StartNotice"
  "notice_of (LogMessage ctx (''Deleting '' @ show_nat n @ '' file(s) from S3...'')) = StartNotice"
  "notice_of (LogMessage ctx (''Listing files from bucket '' @ dquote @ b @ dquote
       @ '' with prefix '' @ dquote @ p @ dquote @ ''...'')) = StartNotice"
  "notice_of (LogMessage ctx (''Generating signed URL for s3://'' @ b @ ''/'' @ k @ ''...'')) = StartNotice"
  by simp_all

lemma notice_of_completions:
  "notice_of (LogMessage ctx ''Upload completed successfully.'') = CompletionNotice"
  "notice_of (LogMessage ctx ''Deletion completed successfully.'') = CompletionNotice"
  "notice_of (LogMessage ctx (''Found '' @ show_nat n @ '' file(s).'')) = CompletionNotice"
  "notice_of (LogMessage ctx ''Signed URL generated successfully.'') = CompletionNotice"
  by simp_all

lemma logged_uploadFiles:
  "logged rt (uploadFiles data rt) =
     [LogMessage (logger_context (logger (service rt)))
        (''Uploading '' @ show_nat (length data) @ '' file(s) to S3...''),
      case fst (uploadFiles data rt) of
        Inr u \<Rightarrow> LogMessage (logger_context (logger (service rt))) ''Upload completed successfully.''
      | Inl e \<Rightarrow> ErrorMessage (logger_context (logger (service rt))) ''Failed to upload files to S3''
                  (stack_or_empty e)]"
  by (rule logged_two) (rule console_uploadFiles)

lemma logged_downloadFiles:
  "logged rt (downloadFiles data rt) =
     LogMessage (logger_context (logger (service rt)))
        (''Downloading '' @ show_nat (length data) @ '' file(s) from S3...'') #
     (case fst (downloadFiles data rt) of
        Inr buffers \<Rightarrow> []
      | Inl e \<Rightarrow> [ErrorMessage (logger_context (logger (service rt))) ''Failed to download files from S3''
                  (stack_or_empty e)])"
  by (rule logged_two) (simp only: console_downloadFiles)

lemma logged_deleteFiles:
  "logged rt (deleteFiles data rt) =
     [LogMessage (logger_context (logger (service rt)))
        (''Deleting '' @ show_nat (length data) @ '' file(s) from S3...''),
      case fst (deleteFiles data rt) of
        Inr u \<Rightarrow> LogMessage (logger_context (logger (service rt))) ''Deletion completed successfully.''
      | Inl e \<Rightarrow> ErrorMessage (logger_context (logger (service rt))) ''Failed to delete files from S3''
                  (stack_or_empty e)]"
  by (rule logged_two) (rule console_deleteFiles)

lemma logged_listFiles:
  "logged rt (listFiles data rt) =
     [LogMessage (logger_context (logger (service rt)))
        (''Listing files from bucket '' @ dquote @ bucket data @ dquote
           @ '' with prefix '' @ dquote @ js_or (prefix data) '''' @ dquote @ ''...''),
      case fst (listFiles data rt) of
        Inr keys \<Rightarrow> LogMessage (logger_context (logger (service rt)))
                     (''Found '' @ show_nat (length keys) @ '' file(s).'')
      | Inl e \<Rightarrow> ErrorMessage (logger_context (logger (service rt))) ''Failed to list files from S3''
                  (stack_or_empty e)]"
  by (rule logged_two) (rule console_listFiles)

lemma logged_getSignedUrl:
  "logged rt (getSignedUrl generateSignedUrl data rt) =
     [LogMessage (logger_context (logger (service rt)))
        (''Generating signed URL for s3://'' @ bucket data @ ''/'' @ key data @ ''...''),
      case fst (getSignedUrl generateSignedUrl data rt) of
        Inr url \<Rightarrow> LogMessage (logger_context (logger (service rt))) ''Signed URL generated successfully.''
      | Inl e \<Rightarrow> ErrorMessage (logger_context (logger (service rt))) ''Failed to generate signed URL''
                  (stack_or_empty e)]"
  by (rule logged_two) (rule console_getSignedUrl)

text \<open>
  C8, as amended: every call logs a start notice first. A call that resolves then logs
  one completion notice, except \<open>downloadFiles\<close>, which logs nothing more; a call that
  rejects then logs one error notice, whose trace is the stack of the failure when the
  failure is an \<open>Error\<close> and the empty string when it is not. So a call logs notices of
  two kinds, and a download that resolves notices of one.
\<close>

theorem notices_of_a_call:
  "(case fst (uploadFiles uploads rt) of
      Inr u \<Rightarrow> map notice_of (logged rt (uploadFiles uploads rt)) = [StartNotice, CompletionNotice]
    | Inl e \<Rightarrow> map notice_of (logged rt (uploadFiles uploads rt)) = [StartNotice, ErrorNotice] \<and>
        last (logged rt (uploadFiles uploads rt)) =
          ErrorMessage (logger_context (logger (service rt))) ''Failed to upload files to S3''
            (case e of JsError msg st \<Rightarrow> st | JsThrown v \<Rightarrow> Some '''')) \<and>
   (case fst (downloadFiles downloads rt) of
      Inr buffers \<Rightarrow> map notice_of (logged rt (downloadFiles downloads rt)) = [StartNotice]
    | Inl e \<Rightarrow> map notice_of (logged rt (downloadFiles downloads rt)) = [StartNotice, ErrorNotice] \<and>
        last (logged rt (downloadFiles downloads rt)) =
          ErrorMessage (logger_context (logger (service rt))) ''Failed to download files from S3''
            (case e of JsError msg st \<Rightarrow> st | JsThrown v \<Rightarrow> Some '''')) \<and>
   (case fst (deleteFiles deletes rt) of
      Inr u \<Rightarrow> map notice_of (logged rt (deleteFiles deletes rt)) = [StartNotice, CompletionNotice]
    | Inl e \<Rightarrow> map notice_of (logged rt (deleteFiles deletes rt)) = [StartNotice, ErrorNotice] \<and>
        last (logged rt (deleteFiles deletes rt)) =
          ErrorMessage (logger_context (logger (service rt))) ''Failed to delete files from S3''
            (case e of JsError msg st \<Rightarrow> st | JsThrown v \<Rightarrow> Some '''')) \<and>
   (case fst (listFiles listing rt) of
      Inr keys \<Rightarrow> map notice_of (logged rt (listFiles listing rt)) = [StartNotice, CompletionNotice]
    | Inl e \<Rightarrow> map notice_of (logged rt (listFiles listing rt)) = [StartNotice, ErrorNotice] \<and>
        last (logged rt (listFiles listing rt)) =
          ErrorMessage (logger_context (logger (service rt))) ''Failed to list files from S3''
            (case e of JsError msg st \<Rightarrow> st | JsThrown v \<Rightarrow> Some '''')) \<and>
   (case fst (getSignedUrl generateSignedUrl signing rt) of
      Inr url \<Rightarrow> map notice_of (logged rt (getSignedUrl generateSignedUrl signing rt)) =
        [StartNotice, CompletionNotice]
    | Inl e \<Rightarrow> map notice_of (logged rt (getSignedUrl generateSignedUrl signing rt)) =
        [StartNotice, ErrorNotice] \<and>
        last (logged rt (getSignedUrl generateSignedUrl signing rt)) =
          ErrorMessage (logger_context (logger (service rt))) ''Failed to generate signed URL''
            (case e of JsError msg st \<Rightarrow> st | JsThrown v \<Rightarrow> Some ''''))"
proof (intro conjI, goal_cases)
  case 1
  show ?case
    by (cases "fst (uploadFiles uploads rt)")
       (simp_all only: logged_uploadFiles notice_of_starts notice_of_completions stack_or_empty_cases
          sum.case list.map last.simps notice_of.simps(1) if_False if_True list.distinct simp_thms)
next
  case 2
  show ?case
    by (cases "fst (downloadFiles downloads rt)")
       (simp_all only: logged_downloadFiles notice_of_starts notice_of_completions stack_or_empty_cases
          sum.case list.map last.simps notice_of.simps(1) if_False if_True list.distinct simp_thms)
next
  case 3
  show ?case
    by (cases "fst (deleteFiles deletes rt)")
       (simp_all only: logged_deleteFiles notice_of_starts notice_of_completions stack_or_empty_cases
          sum.case list.map last.simps notice_of.simps(1) if_False if_True list.distinct simp_thms)
next
  case 4
  show ?case
    by (cases "fst (listFiles listing rt)")
       (simp_all only: logged_listFiles notice_of_starts notice_of_completions stack_or_empty_cases
          sum.case list.map last.simps notice_of.simps(1) if_False if_True list.distinct simp_thms)
next
  case 5
  show ?case
    by (cases "fst (getSignedUrl generateSignedUrl signing rt)")
       (simp_all only: logged_getSignedUrl notice_of_starts notice_of_completions stack_or_empty_cases
          sum.case list.map last.simps notice_of.simps(1) if_False if_True list.distinct simp_thms)
qed

theorem notices_of_a_call_witness:
  "map notice_of (logged (fresh (object_store 2 no_faults) [])
      (uploadFiles
         [\<lparr>bucket = ''b'', key = ''f.txt'', content = Buffer_from ''Hello'', contentType = Some ''text/plain''\<rparr>]
         (fresh (object_store 2 no_faults) []))) = [StartNotice, CompletionNotice] \<and>
   map notice_of (logged (fresh (object_store 2 no_faults) [])
      (downloadFiles [\<lparr>bucket = ''b'', key = ''f.txt''\<rparr>] (fresh (object_store 2 no_faults) []))) =
     [StartNotice, ErrorNotice] \<and>
   last (logged (fresh (object_store 2 no_faults) [])
      (downloadFiles [\<lparr>bucket = ''b'', key = ''f.txt''\<rparr>] (fresh (object_store 2 no_faults) []))) =
     ErrorMessage ''S3StorageService'' ''Failed to download files from S3''
       (Some ''NoSuchKey: The specified key does not exist.'')"
proof -
  let ?rt = "fresh (object_store 2 no_faults) []"
  let ?up = "[\<lparr>bucket = ''b'', key = ''f.txt'', content = Buffer_from ''Hello'', contentType = Some ''text/plain''\<rparr>]"
  let ?down = "[\<lparr>bucket = ''b'', key = ''f.txt''\<rparr>]"
  have up: "fst (uploadFiles ?up ?rt) = Inr ()"
    by code_simp
  have down: "fst (downloadFiles ?down ?rt) =
                Inl (JsError ''The specified key does not exist.''
                       (Some ''NoSuchKey: The specified key does not exist.''))"
    by code_simp
  have ctx: "logger_context (logger (service ?rt)) = ''S3StorageService''"
    by (simp add: fresh_def new_S3StorageService_def)
  from notices_of_a_call [where uploads = ?up and rt = ?rt and downloads = ?down]
  show ?thesis by (simp add: up down ctx)
qed

text \<open>
  The claim as it stands fails on an upload that succeeds: it logs a start notice and a
  completion notice, two kinds of notice and not one.
\<close>

theorem notices_of_a_call_counterexample:
  "fst (uploadFiles
          [\<lparr>bucket = ''test-bucket'', key = ''file.txt'', content = Buffer_from ''Hello'',
             contentType = Some ''text/plain''\<rparr>]
          (fresh (mockResolvedValue empty_output) ())) = Inr () \<and>
   logged (fresh (mockResolvedValue empty_output) ())
     (uploadFiles
          [\<lparr>bucket = ''test-bucket'', key = ''file.txt'', content = Buffer_from ''Hello'',
             contentType = Some ''text/plain''\<rparr>]
          (fresh (mockResolvedValue empty_output) ())) =
     [LogMessage ''S3StorageService'' ''Uploading 1 file(s) to S3...'',
      LogMessage ''S3StorageService'' ''Upload completed successfully.''] \<and>
   notice_of (LogMessage ''S3StorageService'' ''Uploading 1 file(s) to S3...'') = StartNotice \<and>
   notice_of (LogMessage ''S3StorageService'' ''Upload completed successfully.'') = CompletionNotice"
proof (intro conjI)
  show "fst (uploadFiles
          [\<lparr>bucket = ''test-bucket'', key = ''file.txt'', content = Buffer_from ''Hello'',
             contentType = Some ''text/plain''\<rparr>]
          (fresh (mockResolvedValue empty_output) ())) = Inr ()"
    by code_simp
  show "logged (fresh (mockResolvedValue empty_output) ())
     (uploadFiles
          [\<lparr>bucket = ''test-bucket'', key = ''file.txt'', content = Buffer_from ''Hello'',
             contentType = Some ''text/plain''\<rparr>]
          (fresh (mockResolvedValue empty_output) ())) =
     [LogMessage ''S3StorageService'' ''Uploading 1 file(s) to S3...'',
      LogMessage ''S3StorageService'' ''Upload completed successfully.'']"
    by code_simp
  show "notice_of (LogMessage ''S3StorageService'' ''Uploading 1 file(s) to S3...'') = StartNotice"
    by simp
  show "notice_of (LogMessage ''S3StorageService'' ''Upload completed successfully.'') = CompletionNotice"
    by simp
qed

section \<open>The object store\<close>

declare stream_of.simps [simp del]

lemma ends_stream_of: "ends (stream_of n body)"
  by (induction n body rule: stream_of.induct) (subst stream_of.simps, simp)

lemma concat_chunks_of_stream_of: "concat (chunks_of (stream_of n body)) = body"
  by (induction n body rule: stream_of.induct) (subst stream_of.simps, simp)

lemma read_body_stream_of:
  "read_body (Inr \<lparr>Body = Some (stream_of n body), Contents = c\<rparr>) = Inr body"
  by (simp add: read_body_ends ends_stream_of concat_chunks_of_stream_of)

text \<open>What a command does to the store, whether it is refused or served.\<close>

lemma object_store_put:
  "object_store n faults (PutObjectCommand b k body ct) table =
     (case faults (PutObjectCommand b k body ct) of
        Some e \<Rightarrow> (Inl e, table)
      | None \<Rightarrow> (Inr empty_output,
                 AList.update (b, k) \<lparr>stored_body = body, stored_type = ct\<rparr> table))"
  by (simp add: object_store_def split: option.split)

lemma object_store_get:
  "object_store n faults (GetObjectCommand b k) table =
     (case faults (GetObjectCommand b k) of
        Some e \<Rightarrow> (Inl e, table)
      | None \<Rightarrow>
          (case map_of table (b, k) of
             None \<Rightarrow> (Inl no_such_key, table)
           | Some obj \<Rightarrow> (Inr \<lparr>Body = Some (stream_of n (stored_body obj)), Contents = None\<rparr>, table)))"
  by (simp add: object_store_def split: option.split)

lemma object_store_delete:
  "object_store n faults (DeleteObjectCommand b k) table =
     (case faults (DeleteObjectCommand b k) of
        Some e \<Rightarrow> (Inl e, table)
      | None \<Rightarrow> (Inr empty_output, AList.delete (b, k) table))"
  by (simp add: object_store_def split: option.split)

lemma object_store_get_keeps: "snd (object_store n faults (GetObjectCommand b k) table) = table"
  by (simp add: object_store_get split: option.split)

lemma object_store_list_keeps: "snd (object_store n faults (ListObjectsV2Command b p) table) = table"
  by (simp add: object_store_def Let_def split: option.split)

text \<open>A put that the store serves is a put the store does not refuse.\<close>

lemma puts_all_served:
  assumes "send (s3 (service rt)) = object_store n faults"
      and "map snd (sent_promises (map (\<lambda>f. PutObjectCommand (bucket f) (key f) (content f)
                   (js_or (contentType f) ''application/octet-stream'')) data) rt) = map Inr vs"
      and "g \<in> set data"
  shows "faults (PutObjectCommand (bucket g) (key g) (content g)
                (js_or (contentType g) ''application/octet-stream'')) = None"
  using assms
proof (induction data arbitrary: rt vs)
  case Nil
  then show ?case by simp
next
  case (Cons f data)
  have store: "send (s3 (service (snd (s3_send (PutObjectCommand (bucket f) (key f) (content f)
                (js_or (contentType f) ''application/octet-stream'')) rt)))) = object_store n faults"
    by (simp add: s3_send_fields Cons.prems(1))
  from Cons.prems(2) obtain v ws where
    first: "fst (s3_send (PutObjectCommand (bucket f) (key f) (content f)
                (js_or (contentType f) ''application/octet-stream'')) rt) = Inr v" and
    rest: "map snd (sent_promises (map (\<lambda>f. PutObjectCommand (bucket f) (key f) (content f)
                   (js_or (contentType f) ''application/octet-stream'')) data) (snd (s3_send (PutObjectCommand (bucket f) (key f) (content f)
                (js_or (contentType f) ''application/octet-stream'')) rt))) = map Inr ws"
    by (cases vs) (auto simp: sent_promises_Cons)
  from first have served: "faults (PutObjectCommand (bucket f) (key f) (content f)
                (js_or (contentType f) ''application/octet-stream'')) = None"
    by (simp add: s3_send_fields Cons.prems(1) object_store_put split: option.splits)
  show ?case
  proof (cases "g = f")
    case True
    with served show ?thesis by simp
  next
    case False
    with Cons.prems(3) have "g \<in> set data" by simp
    from Cons.IH [OF store rest this] show ?thesis .
  qed
qed

text \<open>A key that no served put of the batch writes holds what it held.\<close>

lemma puts_unserved_key:
  assumes "send (s3 (service rt)) = object_store n faults"
      and "\<forall>f\<in>set data. (bucket f, key f) = k \<longrightarrow> faults (PutObjectCommand (bucket f) (key f) (content f)
                (js_or (contentType f) ''application/octet-stream'')) \<noteq> None"
  shows "map_of (remote (snd (send_each
            (map (\<lambda>f. PutObjectCommand (bucket f) (key f) (content f)
                   (js_or (contentType f) ''application/octet-stream'')) data) rt))) k = map_of (remote rt) k"
  using assms
proof (induction data arbitrary: rt)
  case Nil
  show ?case by simp
next
  case (Cons f data)
  have store: "send (s3 (service (snd (s3_send (PutObjectCommand (bucket f) (key f) (content f)
                (js_or (contentType f) ''application/octet-stream'')) rt)))) = object_store n faults"
    by (simp add: s3_send_fields Cons.prems(1))
  have others: "\<forall>f\<in>set data. (bucket f, key f) = k \<longrightarrow> faults (PutObjectCommand (bucket f) (key f) (content f)
                (js_or (contentType f) ''application/octet-stream'')) \<noteq> None"
    and this_one: "(bucket f, key f) = k \<longrightarrow> faults (PutObjectCommand (bucket f) (key f) (content f)
                (js_or (contentType f) ''application/octet-stream'')) \<noteq> None"
    using Cons.prems(2) by simp_all
  have "map_of (remote (snd (s3_send (PutObjectCommand (bucket f) (key f) (content f)
                (js_or (contentType f) ''application/octet-stream'')) rt))) k = map_of (remote rt) k"
    using this_one
    by (auto simp: s3_send_fields Cons.prems(1) object_store_put update_conv' split: option.split)
  with Cons.IH [OF store others] show ?case by (simp add: send_each_Cons)
qed

lemma puts_keep_other_keys:
  assumes "send (s3 (service rt)) = object_store n faults"
      and "k \<notin> set (map (\<lambda>f. (bucket f, key f)) data)"
  shows "map_of (remote (snd (send_each
            (map (\<lambda>f. PutObjectCommand (bucket f) (key f) (content f)
                   (js_or (contentType f) ''application/octet-stream'')) data) rt))) k = map_of (remote rt) k"
proof (rule puts_unserved_key [OF assms(1)])
  show "\<forall>f\<in>set data. (bucket f, key f) = k \<longrightarrow> faults (PutObjectCommand (bucket f) (key f) (content f)
                (js_or (contentType f) ''application/octet-stream'')) \<noteq> None"
    using assms(2) by auto
qed

text \<open>
  After a batch of puts, a key that a served put of the batch writes holds the object of
  a served put of the batch for that key.
\<close>

lemma puts_store_some:
  assumes "send (s3 (service rt)) = object_store n faults"
      and "g \<in> set data"
      and "faults (PutObjectCommand (bucket g) (key g) (content g)
                (js_or (contentType g) ''application/octet-stream'')) = None"
  shows "\<exists>r\<in>set data. (bucket r, key r) = (bucket g, key g) \<and> faults (PutObjectCommand (bucket r) (key r) (content r)
                (js_or (contentType r) ''application/octet-stream'')) = None \<and>
           map_of (remote (snd (send_each
            (map (\<lambda>f. PutObjectCommand (bucket f) (key f) (content f)
                   (js_or (contentType f) ''application/octet-stream'')) data) rt))) (bucket g, key g) = Some \<lparr>stored_body = content r,
                  stored_type = js_or (contentType r) ''application/octet-stream''\<rparr>"
  using assms
proof (induction data arbitrary: rt g)
  case Nil
  then show ?case by simp
next
  case (Cons f data)
  let ?rt1 = "snd (s3_send (PutObjectCommand (bucket f) (key f) (content f)
                (js_or (contentType f) ''application/octet-stream'')) rt)"
  have store: "send (s3 (service ?rt1)) = object_store n faults"
    by (simp add: s3_send_fields Cons.prems(1))
  show ?case
  proof (cases "\<exists>h\<in>set data. (bucket h, key h) = (bucket g, key g) \<and> faults (PutObjectCommand (bucket h) (key h) (content h)
                (js_or (contentType h) ''application/octet-stream'')) = None")
    case True
    then obtain h where h: "h \<in> set data" "(bucket h, key h) = (bucket g, key g)" "faults (PutObjectCommand (bucket h) (key h) (content h)
                (js_or (contentType h) ''application/octet-stream'')) = None"
      by auto
    from Cons.IH [OF store h(1) h(3)] obtain r where
      "r \<in> set data" "(bucket r, key r) = (bucket h, key h)" "faults (PutObjectCommand (bucket r) (key r) (content r)
                (js_or (contentType r) ''application/octet-stream'')) = None"
      "map_of (remote (snd (send_each
            (map (\<lambda>f. PutObjectCommand (bucket f) (key f) (content f)
                   (js_or (contentType f) ''application/octet-stream'')) data) ?rt1))) (bucket h, key h) = Some \<lparr>stored_body = content r,
                  stored_type = js_or (contentType r) ''application/octet-stream''\<rparr>"
      by auto
    with h(2) show ?thesis by (intro bexI [of _ r]) (simp_all add: send_each_Cons)
  next
    case False
    then have none: "\<forall>h\<in>set data. (bucket h, key h) = (bucket g, key g) \<longrightarrow> faults (PutObjectCommand (bucket h) (key h) (content h)
                (js_or (contentType h) ''application/octet-stream'')) \<noteq> None"
      by simp
    have "g \<notin> set data"
    proof
      assume "g \<in> set data"
      with none have "faults (PutObjectCommand (bucket g) (key g) (content g)
                (js_or (contentType g) ''application/octet-stream'')) \<noteq> None" by simp
      with Cons.prems(3) show False by simp
    qed
    with Cons.prems(2) have gf: "g = f" by simp
    have "map_of (remote ?rt1) (bucket g, key g) = Some \<lparr>stored_body = content g,
                  stored_type = js_or (contentType g) ''application/octet-stream''\<rparr>"
      using Cons.prems(3)
      by (simp add: gf s3_send_fields Cons.prems(1) object_store_put update_conv')
    with puts_unserved_key [OF store none] Cons.prems(3)
    show ?thesis by (intro bexI [of _ g]) (simp_all add: gf send_each_Cons)
  qed
qed


lemma uploadFiles_resolved_served:
  assumes "send (s3 (service rt)) = object_store n faults"
      and "fst (uploadFiles data rt) = Inr ()"
      and "g \<in> set data"
  shows "faults (PutObjectCommand (bucket g) (key g) (content g)
                (js_or (contentType g) ''application/octet-stream'')) = None"
proof -
  from assms(2) obtain vs where "Promise_all (sent_promises (map (\<lambda>f. PutObjectCommand (bucket f) (key f) (content f)
                   (js_or (contentType f) ''application/octet-stream'')) data) rt) = Inr vs"
    by (cases "Promise_all (sent_promises (map (\<lambda>f. PutObjectCommand (bucket f) (key f) (content f)
                   (js_or (contentType f) ''application/octet-stream'')) data) rt)") (simp_all add: fst_uploadFiles)
  from puts_all_served [OF assms(1) Promise_all_Inr_D [OF this] assms(3)] show ?thesis .
qed

lemma uploadFiles_stores_some:
  assumes "send (s3 (service rt)) = object_store n faults"
      and "fst (uploadFiles data rt) = Inr ()"
      and "g \<in> set data"
  shows "\<exists>r\<in>set data. (bucket r, key r) = (bucket g, key g) \<and>
           map_of (remote (snd (uploadFiles data rt))) (bucket g, key g) = Some \<lparr>stored_body = content r,
                  stored_type = js_or (contentType r) ''application/octet-stream''\<rparr>"
  using puts_store_some [OF assms(1,3) uploadFiles_resolved_served [OF assms]]
  by (auto simp: remote_uploadFiles)





section \<open>An upload, then a download\<close>

text \<open>
  The scenario of an upload, a listing, a download, a delete and a second listing, run
  against the object store.
\<close>

lemma end_to_end_scenario:
  "fst (listFiles \<lparr>bucket = ''b'', prefix = Some ''''\<rparr>
          (snd (uploadFiles
             [\<lparr>bucket = ''b'', key = ''f.txt'', content = [72, 101, 108, 108, 111],
                contentType = Some ''text/plain''\<rparr>]
             (fresh (object_store 2 no_faults) [])))) = Inr [Some ''f.txt''] \<and>
   fst (downloadFiles [\<lparr>bucket = ''b'', key = ''f.txt''\<rparr>]
          (snd (uploadFiles
             [\<lparr>bucket = ''b'', key = ''f.txt'', content = [72, 101, 108, 108, 111],
                contentType = Some ''text/plain''\<rparr>]
             (fresh (object_store 2 no_faults) [])))) = Inr [[72, 101, 108, 108, 111]] \<and>
   fst (listFiles \<lparr>bucket = ''b'', prefix = Some ''''\<rparr>
          (snd (deleteFiles [\<lparr>bucket = ''b'', key = ''f.txt''\<rparr>]
             (snd (uploadFiles
                [\<lparr>bucket = ''b'', key = ''f.txt'', content = [72, 101, 108, 108, 111],
                   contentType = Some ''text/plain''\<rparr>]
                (fresh (object_store 2 no_faults) [])))))) = Inr []"
  by (intro conjI; code_simp)

text \<open>What the calls of the other methods leave under a key they do not write.\<close>

lemma deletes_keep_other_keys:
  assumes "send (s3 (service rt)) = object_store n faults"
      and "k \<notin> set (map (\<lambda>f. (bucket f, key f)) data)"
  shows "map_of (remote (snd (send_each (map (\<lambda>f. DeleteObjectCommand (bucket f) (key f)) data) rt))) k = map_of (remote rt) k"
  using assms
proof (induction data arbitrary: rt)
  case Nil
  show ?case by simp
next
  case (Cons f data)
  let ?cmd = "DeleteObjectCommand (bucket f) (key f)"
  have store: "send (s3 (service (snd (s3_send ?cmd rt)))) = object_store n faults"
    by (simp add: s3_send_fields Cons.prems(1))
  have other: "k \<notin> set (map (\<lambda>f. (bucket f, key f)) data)" and ne: "k \<noteq> (bucket f, key f)"
    using Cons.prems(2) by auto
  have "map_of (remote (snd (s3_send ?cmd rt))) k = map_of (remote rt) k"
    using ne by (simp add: s3_send_fields Cons.prems(1) object_store_delete delete_conv'
        split: option.split)
  with Cons.IH [OF store other] show ?case by (simp add: send_each_Cons)
qed

lemma gets_keep_store:
  assumes "send (s3 (service rt)) = object_store n faults"
  shows "remote (snd (send_each (map (\<lambda>f. GetObjectCommand (bucket f) (key f)) data) rt)) = remote rt"
  using assms
proof (induction data arbitrary: rt)
  case Nil
  show ?case by simp
next
  case (Cons f data)
  let ?cmd = "GetObjectCommand (bucket f) (key f)"
  have store: "send (s3 (service (snd (s3_send ?cmd rt)))) = object_store n faults"
    by (simp add: s3_send_fields Cons.prems)
  have "remote (snd (s3_send ?cmd rt)) = remote rt"
    by (simp add: s3_send_fields Cons.prems object_store_get_keeps)
  with Cons.IH [OF store] show ?case by (simp add: send_each_Cons)
qed

lemma service_after_call: "service (after_call generateSignedUrl c rt) = service rt"
  by (cases c)
     (simp_all add: service_uploadFiles service_downloadFiles service_deleteFiles
        service_listFiles service_getSignedUrl)

lemma service_after_calls: "service (after_calls generateSignedUrl cs rt) = service rt"
  by (induction cs arbitrary: rt) (simp_all add: service_after_call)

lemma after_call_keeps:
  assumes "send (s3 (service rt)) = object_store n faults"
      and "\<forall>client cmd seconds table. snd (generateSignedUrl client cmd seconds table) = table"
      and "k \<notin> set (written c)"
  shows "map_of (remote (after_call generateSignedUrl c rt)) k = map_of (remote rt) k"
proof (cases c)
  case (CallUpload data)
  with assms(3) have "k \<notin> set (map (\<lambda>f. (bucket f, key f)) data)" by simp
  from puts_keep_other_keys [OF assms(1) this] CallUpload
  show ?thesis by (simp add: remote_uploadFiles)
next
  case (CallDownload data)
  with gets_keep_store [OF assms(1), of data]
  show ?thesis by (simp add: remote_downloadFiles)
next
  case (CallDelete data)
  with assms(3) have "k \<notin> set (map (\<lambda>f. (bucket f, key f)) data)" by simp
  from deletes_keep_other_keys [OF assms(1) this] CallDelete
  show ?thesis by (simp add: remote_deleteFiles)
next
  case (CallList data)
  with assms(1) show ?thesis
    by (simp add: remote_listFiles object_store_list_keeps)
next
  case (CallSignedUrl data)
  with assms(2) show ?thesis
    by (simp add: remote_getSignedUrl)
qed

lemma after_calls_keep:
  assumes "send (s3 (service rt)) = object_store n faults"
      and "\<forall>client cmd seconds table. snd (generateSignedUrl client cmd seconds table) = table"
      and "\<forall>c\<in>set cs. k \<notin> set (written c)"
  shows "map_of (remote (after_calls generateSignedUrl cs rt)) k = map_of (remote rt) k"
  using assms(1,3)
proof (induction cs arbitrary: rt)
  case Nil
  then show ?case by simp
next
  case (Cons c cs)
  from Cons.prems(2) have c: "k \<notin> set (written c)" and cs: "\<forall>c\<in>set cs. k \<notin> set (written c)"
    by simp_all
  have store: "send (s3 (service (after_call generateSignedUrl c rt))) = object_store n faults"
    by (simp add: service_after_call Cons.prems(1))
  from Cons.IH [OF store cs] after_call_keeps [OF Cons.prems(1) assms(2) c]
  show ?case by simp
qed

text \<open>Gets of keys that hold something, against a store that does not refuse them.\<close>

lemma gets_read_store:
  assumes "send (s3 (service rt)) = object_store n faults"
      and "\<forall>f\<in>set reqs. faults (GetObjectCommand (bucket f) (key f)) = None \<and>
             (\<exists>obj. map_of (remote rt) (bucket f, key f) = Some obj \<and> stored_body obj = want f)"
  shows "map read_body (fst (send_each (map (\<lambda>f. GetObjectCommand (bucket f) (key f)) reqs) rt)) =
           map (\<lambda>f. Inr (want f)) reqs"
  using assms
proof (induction reqs arbitrary: rt)
  case Nil
  show ?case by simp
next
  case (Cons f reqs)
  let ?cmd = "GetObjectCommand (bucket f) (key f)"
  from Cons.prems(2) obtain obj where
    ok: "faults ?cmd = None" and obj: "map_of (remote rt) (bucket f, key f) = Some obj"
    and body: "stored_body obj = want f"
    by auto
  have sent: "send (s3 (service rt)) ?cmd (remote rt) =
                (Inr \<lparr>Body = Some (stream_of n (want f)), Contents = None\<rparr>, remote rt)"
    by (simp add: Cons.prems(1) object_store_get ok obj body)
  have same: "remote (snd (s3_send ?cmd rt)) = remote rt"
    and first: "read_body (fst (s3_send ?cmd rt)) = Inr (want f)"
    by (simp_all add: s3_send_fields sent read_body_stream_of)
  have store: "send (s3 (service (snd (s3_send ?cmd rt)))) = object_store n faults"
    by (simp add: s3_send_fields Cons.prems(1))
  have "\<forall>f\<in>set reqs. faults (GetObjectCommand (bucket f) (key f)) = None \<and>
          (\<exists>obj. map_of (remote (snd (s3_send ?cmd rt))) (bucket f, key f) = Some obj \<and>
                 stored_body obj = want f)"
    using Cons.prems(2) by (simp add: same)
  from Cons.IH [OF store this] first show ?case by (simp add: send_each_Cons)
qed

text \<open>
  C1, as amended: against the object store, for every batch of upload requests whose
  container and key pairs are pairwise distinct and whose writes all succeed (the upload
  resolves), a later \<open>downloadFiles\<close> on the same pairs, in the same order, resolves with
  the \<open>content\<close> fields of the upload requests, byte for byte and in that order, provided
  that the store does not refuse its reads and that no call in between uploads to or
  deletes one of those pairs. The calls in between are any calls of the five methods; the
  presigner is one that leaves the store as it is.
\<close>

theorem upload_then_download_roundtrip:
  assumes "send (s3 (service rt)) = object_store n faults"
      and "distinct (map (\<lambda>f. (bucket f, key f)) data)"
      and "fst (uploadFiles data rt) = Inr ()"
      and "\<forall>client cmd seconds table. snd (generateSignedUrl client cmd seconds table) = table"
      and "\<forall>c\<in>set between. \<forall>f\<in>set data. (bucket f, key f) \<notin> set (written c)"
      and "\<forall>f\<in>set data. faults (GetObjectCommand (bucket f) (key f)) = None"
  shows "fst (downloadFiles (map (\<lambda>f. \<lparr>bucket = bucket f, key = key f\<rparr>) data)
                (after_calls generateSignedUrl between (snd (uploadFiles data rt)))) =
           Inr (map content data)"
proof -
  let ?rt1 = "snd (uploadFiles data rt)"
  let ?rt2 = "after_calls generateSignedUrl between ?rt1"
  have store1: "send (s3 (service ?rt1)) = object_store n faults"
    by (simp add: service_uploadFiles assms(1))
  have held: "\<forall>f\<in>set data. faults (GetObjectCommand (bucket f) (key f)) = None \<and>
      (\<exists>obj. map_of (remote ?rt2) (bucket f, key f) = Some obj \<and> stored_body obj = content f)"
  proof
    fix f assume f: "f \<in> set data"
    from uploadFiles_stores_some [OF assms(1,3) f] obtain r where
      r: "r \<in> set data" "(bucket r, key r) = (bucket f, key f)"
         "map_of (remote ?rt1) (bucket f, key f) = Some \<lparr>stored_body = content r,
                  stored_type = js_or (contentType r) ''application/octet-stream''\<rparr>"
      by auto
    from assms(2) r(1,2) f have "r = f"
      by (auto simp: distinct_map dest: inj_onD)
    with r(3) have after_upload: "map_of (remote ?rt1) (bucket f, key f) = Some \<lparr>stored_body = content f,
                  stored_type = js_or (contentType f) ''application/octet-stream''\<rparr>"
      by simp
    from assms(5) f have "\<forall>c\<in>set between. (bucket f, key f) \<notin> set (written c)"
      by simp
    from after_calls_keep [OF store1 assms(4) this] after_upload
    have "map_of (remote ?rt2) (bucket f, key f) = Some \<lparr>stored_body = content f,
                  stored_type = js_or (contentType f) ''application/octet-stream''\<rparr>"
      by simp
    with assms(6) f
    show "faults (GetObjectCommand (bucket f) (key f)) = None \<and>
      (\<exists>obj. map_of (remote ?rt2) (bucket f, key f) = Some obj \<and> stored_body obj = content f)"
      by simp
  qed
  have store2: "send (s3 (service ?rt2)) = object_store n faults"
    by (simp add: service_after_calls store1)
  have gets: "map (\<lambda>file. GetObjectCommand (bucket file) (key file))
                (map (\<lambda>f. \<lparr>bucket = bucket f, key = key f\<rparr>) data) =
              map (\<lambda>f. GetObjectCommand (bucket f) (key f)) data"
    by simp
  have "map (\<lambda>f. Inr (content f) :: js_error + Buffer) data = map Inr (map content data)"
    by simp
  with gets_read_store [OF store2 held]
  have reads: "map read_body (fst (send_each (map (\<lambda>f. GetObjectCommand (bucket f) (key f)) data) ?rt2)) =
          map Inr (map content data)"
    by simp
  show ?thesis
    unfolding fst_downloadFiles gets
  proof (rule Promise_all_resolved)
    show "map snd (map read_promise (sent_promises
             (map (\<lambda>f. GetObjectCommand (bucket f) (key f)) data) ?rt2)) =
          map Inr (map content data)"
      by (simp only: map_snd_read_promise map_snd_sent_promises reads)
  qed
qed

theorem upload_then_download_roundtrip_witness:
  "fst (downloadFiles [\<lparr>bucket = ''b'', key = ''f.txt''\<rparr>, \<lparr>bucket = ''b'', key = ''g.bin''\<rparr>]
          (after_calls mock_presigner
             [CallDownload [\<lparr>bucket = ''b'', key = ''f.txt''\<rparr>],
              CallUpload [\<lparr>bucket = ''b'', key = ''other.txt'', content = [1], contentType = None\<rparr>],
              CallDelete [\<lparr>bucket = ''b'', key = ''other.txt''\<rparr>],
              CallList \<lparr>bucket = ''b'', prefix = None\<rparr>,
              CallSignedUrl \<lparr>bucket = ''b'', key = ''f.txt'', expiresIn = None\<rparr>]
             (snd (uploadFiles
                [\<lparr>bucket = ''b'', key = ''f.txt'', content = [72, 101, 108, 108, 111],
                   contentType = Some ''text/plain''\<rparr>,
                 \<lparr>bucket = ''b'', key = ''g.bin'', content = [0, 255, 7], contentType = None\<rparr>]
                (fresh (object_store 2 no_faults)
                   [((''b'', ''f.txt''), \<lparr>stored_body = [111, 108, 100], stored_type = ''text/csv''\<rparr>)]))))) =
     Inr [[72, 101, 108, 108, 111], [0, 255, 7]]"
proof -
  let ?rt = "fresh (object_store 2 no_faults)
               [((''b'', ''f.txt''), \<lparr>stored_body = [111, 108, 100], stored_type = ''text/csv''\<rparr>)]"
  let ?data = "[\<lparr>bucket = ''b'', key = ''f.txt'', content = [72, 101, 108, 108, 111],
                  contentType = Some ''text/plain''\<rparr>,
                \<lparr>bucket = ''b'', key = ''g.bin'', content = [0, 255, 7], contentType = None\<rparr>]"
  let ?between = "[CallDownload [\<lparr>bucket = ''b'', key = ''f.txt''\<rparr>],
              CallUpload [\<lparr>bucket = ''b'', key = ''other.txt'', content = [1], contentType = None\<rparr>],
              CallDelete [\<lparr>bucket = ''b'', key = ''other.txt''\<rparr>],
              CallList \<lparr>bucket = ''b'', prefix = None\<rparr>,
              CallSignedUrl \<lparr>bucket = ''b'', key = ''f.txt'', expiresIn = None\<rparr>]"
  have store: "send (s3 (service ?rt)) = object_store 2 no_faults"
    by (simp add: fresh_def new_S3StorageService_def)
  have keys: "distinct (map (\<lambda>f. (bucket f, key f)) ?data)"
    by simp
  have written: "fst (uploadFiles ?data ?rt) = Inr ()"
    by code_simp
  have signer: "\<forall>client cmd seconds table.
                  snd ((mock_presigner :: object_table presigner) client cmd seconds table) = table"
    by (simp add: mock_presigner_def split: S3Command.split)
  have apart: "\<forall>c\<in>set ?between. \<forall>f\<in>set ?data. (bucket f, key f) \<notin> set (written c)"
    by simp
  have reads: "\<forall>f\<in>set ?data. no_faults (GetObjectCommand (bucket f) (key f)) = None"
    by (simp add: no_faults_def)
  from upload_then_download_roundtrip [OF store keys written signer apart reads]
  show ?thesis by simp
qed

text \<open>
  The claim as it stands fails on a batch that writes one key twice with different
  content: the key holds one content, so the download gives it for both requests. It
  fails as well when a second upload to the key comes between the upload and the
  download, which is no delete: the download gives the content of the second upload.
\<close>

theorem upload_then_download_roundtrip_counterexample:
  "fst (uploadFiles
          [\<lparr>bucket = ''b'', key = ''f.txt'', content = [65], contentType = None\<rparr>,
           \<lparr>bucket = ''b'', key = ''f.txt'', content = [66], contentType = None\<rparr>]
          (fresh (object_store 2 no_faults) [])) = Inr () \<and>
   fst (downloadFiles [\<lparr>bucket = ''b'', key = ''f.txt''\<rparr>, \<lparr>bucket = ''b'', key = ''f.txt''\<rparr>]
          (snd (uploadFiles
             [\<lparr>bucket = ''b'', key = ''f.txt'', content = [65], contentType = None\<rparr>,
              \<lparr>bucket = ''b'', key = ''f.txt'', content = [66], contentType = None\<rparr>]
             (fresh (object_store 2 no_faults) [])))) = Inr [[66], [66]] \<and>
   map content
          [\<lparr>bucket = ''b'', key = ''f.txt'', content = [65], contentType = None\<rparr>,
           \<lparr>bucket = ''b'', key = ''f.txt'', content = [66], contentType = None\<rparr>] = [[65], [66]] \<and>
   [[66], [66]] \<noteq> [[65], [66 :: byte]] \<and>
   fst (uploadFiles [\<lparr>bucket = ''b'', key = ''f.txt'', content = [65], contentType = None\<rparr>]
          (fresh (object_store 2 no_faults) [])) = Inr () \<and>
   fst (downloadFiles [\<lparr>bucket = ''b'', key = ''f.txt''\<rparr>]
          (snd (uploadFiles [\<lparr>bucket = ''b'', key = ''f.txt'', content = [66], contentType = None\<rparr>]
             (snd (uploadFiles [\<lparr>bucket = ''b'', key = ''f.txt'', content = [65], contentType = None\<rparr>]
                (fresh (object_store 2 no_faults) [])))))) = Inr [[66]] \<and>
   [[66]] \<noteq> [[65 :: byte]]"
proof (intro conjI)
  show "fst (uploadFiles
          [\<lparr>bucket = ''b'', key = ''f.txt'', content = [65], contentType = None\<rparr>,
           \<lparr>bucket = ''b'', key = ''f.txt'', content = [66], contentType = None\<rparr>]
          (fresh (object_store 2 no_faults) [])) = Inr ()"
    by code_simp
  show "fst (downloadFiles [\<lparr>bucket = ''b'', key = ''f.txt''\<rparr>, \<lparr>bucket = ''b'', key = ''f.txt''\<rparr>]
          (snd (uploadFiles
             [\<lparr>bucket = ''b'', key = ''f.txt'', content = [65], contentType = None\<rparr>,
              \<lparr>bucket = ''b'', key = ''f.txt'', content = [66], contentType = None\<rparr>]
             (fresh (object_store 2 no_faults) [])))) = Inr [[66], [66]]"
    by code_simp
  show "map content
          [\<lparr>bucket = ''b'', key = ''f.txt'', content = [65], contentType = None\<rparr>,
           \<lparr>bucket = ''b'', key = ''f.txt'', content = [66], contentType = None\<rparr>] = [[65], [66]]"
    by simp
  show "[[66], [66]] \<noteq> [[65], [66 :: byte]]"
    by simp
  show "fst (uploadFiles [\<lparr>bucket = ''b'', key = ''f.txt'', content = [65], contentType = None\<rparr>]
          (fresh (object_store 2 no_faults) [])) = Inr ()"
    by code_simp
  show "fst (downloadFiles [\<lparr>bucket = ''b'', key = ''f.txt''\<rparr>]
          (snd (uploadFiles [\<lparr>bucket = ''b'', key = ''f.txt'', content = [66], contentType = None\<rparr>]
             (snd (uploadFiles [\<lparr>bucket = ''b'', key = ''f.txt'', content = [65], contentType = None\<rparr>]
                (fresh (object_store 2 no_faults) [])))))) = Inr [[66]]"
    by code_simp
  show "[[66]] \<noteq> [[65 :: byte]]"
    by simp
qed

end
